theory Spec2Isabelle
  imports Main "HOL-Library.Word"
begin

unbundle bit_operations_syntax

section \<open>The object store\<close>

text \<open>
  The program is \<^verbatim>\<open>src/src/invalidator.js\<close>: invalidators, their subscriptions and
  the components that subscribe to them. Its objects are mutable and shared, and the
  subscription sets are arrays that several references may reach, so the model keeps an
  explicit store: every object is a record in a table indexed by its reference, and an
  array is a list in a table of arrays. Object identity (\<^verbatim>\<open>===\<close>) is equality of
  references.
\<close>

type_synonym iid = nat  \<comment> \<open>reference to a \<^verbatim>\<open>kivi.Invalidator\<close>\<close>
type_synonym sid = nat  \<comment> \<open>reference to a \<^verbatim>\<open>kivi.InvalidatorSubscription\<close>\<close>
type_synonym cid = nat  \<comment> \<open>reference to a \<^verbatim>\<open>kivi.Component\<close>\<close>
type_synonym aid = nat  \<comment> \<open>reference to an \<^verbatim>\<open>Array\<close> of subscriptions\<close>
type_synonym did = nat  \<comment> \<open>reference to a \<^verbatim>\<open>kivi.CDescriptor\<close>\<close>
type_synonym vid = nat  \<comment> \<open>reference to a \<^verbatim>\<open>kivi.VNode\<close>\<close>
type_synonym fid = nat  \<comment> \<open>a function value: a plain callback or a descriptor hook\<close>
type_synonym flags = "32 word"  \<comment> \<open>a number used through \<^verbatim>\<open>&\<close>, \<open>|\<close> and \<open>~\<close> only\<close>

text \<open>What the program can throw: a string (\<^verbatim>\<open>throw '...'\<close>) or the engine's
  \<^verbatim>\<open>TypeError\<close> (a property read on \<^verbatim>\<open>null\<close>, a call of something that is no function).\<close>

datatype error = Thrown string | TypeError

text \<open>\<^verbatim>\<open>kivi.InvalidatorSubscriptionFlags\<close>\<close>

definition COMPONENT :: flags where
  "COMPONENT = 0x0001"

definition TRANSIENT :: flags where
  "TRANSIENT = 0x0002"

text \<open>The subscriber of a subscription, \<^verbatim>\<open>function()|!kivi.Component\<close>.\<close>

datatype subscriber = Function fid | ComponentRef cid

record InvalidatorSubscription =
  sub_flags :: flags
  sub_invalidator :: iid
  sub_subscriber :: subscriber
  sub_isCanceled :: bool  \<comment> \<open>\<^verbatim>\<open>_isCanceled\<close>, written and read in debug builds only\<close>

text \<open>A subscription set, \<^verbatim>\<open>?Array<!kivi.InvalidatorSubscription>|?kivi.InvalidatorSubscription\<close>:
  \<^verbatim>\<open>null\<close>, one subscription, or an array object.\<close>

datatype subscriptions = Null | Single sid | Array aid

record Invalidator =
  inv_mtime :: int
  inv_subscriptions :: subscriptions
  inv_transientSubscriptions :: subscriptions

text \<open>\<^verbatim>\<open>kivi.CDescriptor\<close>: every hook is \<^verbatim>\<open>null\<close> or a function.\<close>

record CDescriptor =
  d_flags :: flags
  d_tag :: string
  d_init :: "fid option"
  d_setData :: "fid option"
  d_setChildren :: "fid option"
  d_update :: "fid option"
  d_invalidated :: "fid option"
  d_disposed :: "fid option"
  d_name :: string  \<comment> \<open>set in debug builds only\<close>

text \<open>\<^verbatim>\<open>kivi.CDescriptorFlags\<close>\<close>

definition SVG :: flags where
  "SVG = 0x0001"

text \<open>A host element is opaque to this code: it is created from a tag, with or without
  a namespace, and handed on.\<close>

datatype element = createElement string | createElementNS string string

text \<open>\<^verbatim>\<open>kivi.Component\<close>. The fields \<^verbatim>\<open>data\<close>, \<^verbatim>\<open>state\<close> and \<^verbatim>\<open>children\<close> are payloads
  that no function of this file reads; they are left out.\<close>

record Component =
  c_flags :: flags
  c_mtime :: int
  c_descriptor :: did
  c_parent :: "cid option"
  c_depth :: nat
  c_element :: element
  c_root :: "vid option"
  c_subscriptions :: subscriptions
  c_transientSubscriptions :: subscriptions

text \<open>Of a virtual node this code writes two fields, \<^verbatim>\<open>cref\<close> and \<^verbatim>\<open>ref\<close>.\<close>

record VNode =
  v_cref :: "cid option"
  v_ref :: "element option"

text \<open>
  Modelled from the spec: \<^verbatim>\<open>kivi.scheduler.instance\<close> is not among the sources. The
  spec gives its interface: a logical \<^verbatim>\<open>clock\<close>, a \<^verbatim>\<open>nextFrame()\<close> queue onto which
  components register through \<^verbatim>\<open>updateComponent\<close>, and \<^verbatim>\<open>startUpdateComponentEachFrame\<close>
  for the recurring set. The three fields \<open>clock\<close>, \<open>nextFrame\<close> and \<open>eachFrame\<close>
  are that scheduler; the two queues hold the registrations in the order they were made.
\<close>

record world =
  clock :: int
  nextFrame :: "cid list"
  eachFrame :: "cid list"
  invalidators :: "iid \<Rightarrow> Invalidator"
  subscriptions :: "sid \<Rightarrow> InvalidatorSubscription"
  components :: "cid \<Rightarrow> Component"
  arrays :: "aid \<Rightarrow> sid list"
  descriptors :: "did \<Rightarrow> CDescriptor"
  vnodes :: "vid \<Rightarrow> VNode"
  next_iid :: nat  \<comment> \<open>the next fresh reference of each kind\<close>
  next_sid :: nat
  next_cid :: nat
  next_aid :: nat
  next_did :: nat

text \<open>A call either returns or throws; in both cases the store is the one the call
  left behind, since nothing is rolled back when an exception propagates.\<close>

datatype outcome = Done world | Raised error world

fun world_of :: "outcome \<Rightarrow> world" where
  "world_of (Done w) = w"
| "world_of (Raised e w) = w"

fun is_Done :: "outcome \<Rightarrow> bool" where
  "is_Done (Done w) = True"
| "is_Done (Raised e w) = False"

fun error_of :: "outcome \<Rightarrow> error option" where
  "error_of (Done w) = None"
| "error_of (Raised e w) = Some e"

text \<open>Sequencing: the rest runs only when the first part returned.\<close>

fun and_then :: "outcome \<Rightarrow> (world \<Rightarrow> outcome) \<Rightarrow> outcome" where
  "and_then (Done w) k = k w"
| "and_then (Raised e w) k = Raised e w"

text \<open>
  What the sources do not contain is a parameter of the model:
  \<^item> \<open>DEBUG\<close> is the build constant \<^verbatim>\<open>kivi.DEBUG\<close>;
  \<^item> \<open>ATTACHED\<close> ... \<open>SHOULD_UPDATE_FLAGS\<close> are the constants of \<^verbatim>\<open>kivi.ComponentFlags\<close>;
  \<^item> \<open>HtmlNamespace_SVG\<close> is \<^verbatim>\<open>kivi.HtmlNamespace.SVG\<close>;
  \<^item> \<open>call f\<close> is what the plain callback \<open>f\<close> does when it is called with no
    argument, and \<open>hook f c\<close> what the descriptor hook \<open>f\<close> does on component \<open>c\<close>;
  \<^item> \<open>vnode_mount\<close>, \<open>vnode_render\<close>, \<open>vnode_sync\<close> and \<open>vnode_dispose\<close> are the
    methods of the renderer's virtual node.
  User code and the renderer may do anything to the store, also call back into this
  file, so each is an arbitrary function from the store to an outcome.
\<close>

record env =
  DEBUG :: bool
  ATTACHED :: flags
  MOUNTING :: flags
  DIRTY :: flags
  DISPOSED :: flags
  UPDATE_EACH_FRAME :: flags
  IN_UPDATE_QUEUE :: flags
  SHOULD_UPDATE_FLAGS :: flags
  HtmlNamespace_SVG :: string
  call :: "fid \<Rightarrow> world \<Rightarrow> outcome"
  hook :: "fid \<Rightarrow> cid \<Rightarrow> world \<Rightarrow> outcome"
  vnode_mount :: "vid \<Rightarrow> element \<Rightarrow> cid \<Rightarrow> world \<Rightarrow> outcome"
  vnode_render :: "vid \<Rightarrow> cid \<Rightarrow> world \<Rightarrow> outcome"
  vnode_sync :: "vid \<Rightarrow> vid \<Rightarrow> cid \<Rightarrow> world \<Rightarrow> outcome"
  vnode_dispose :: "vid \<Rightarrow> world \<Rightarrow> outcome"

section \<open>Subscription sets\<close>

text \<open>
  The same three-way code on a subscription set is written out four times in the source
  for adding (\<^verbatim>\<open>Invalidator.addSubscription\<close> twice, \<^verbatim>\<open>Component.subscribe\<close>,
  \<^verbatim>\<open>Component.transientSubscribe\<close>) and four times for removing (both branches of the
  two \<^verbatim>\<open>removeSubscription\<close>). It is modelled once for each, on the value of the field;
  the caller stores the result in the field it read.
\<close>

text \<open>\<^verbatim>\<open>null\<close> becomes the subscription, one subscription becomes a new two-element
  array, an array gets the subscription pushed.\<close>

definition add_to :: "subscriptions \<Rightarrow> sid \<Rightarrow> world \<Rightarrow> subscriptions \<times> world" where
  "add_to subs s w =
     (case subs of
        Null \<Rightarrow> (Single s, w)
      | Single s0 \<Rightarrow>
          (Array (next_aid w),
           w\<lparr>arrays := (arrays w)(next_aid w := [s0, s]), next_aid := Suc (next_aid w)\<rparr>)
      | Array a \<Rightarrow> (Array a, w\<lparr>arrays := (arrays w)(a := arrays w a @ [s])\<rparr>))"

text \<open>\<^verbatim>\<open>Array.prototype.indexOf\<close>: the first index holding the element; \<open>None\<close> is -1.\<close>

fun indexOf :: "sid list \<Rightarrow> sid \<Rightarrow> nat option" where
  "indexOf [] s = None"
| "indexOf (x # xs) s =
     (if x = s then Some 0 else (case indexOf xs s of None \<Rightarrow> None | Some i \<Rightarrow> Some (Suc i)))"

text \<open>
  \<^verbatim>\<open>subscriptions[i] = subscriptions.pop()\<close>. The target \<^verbatim>\<open>subscriptions[i]\<close> is
  fixed first, then \<^verbatim>\<open>pop()\<close> takes the last element off, then the element is stored
  at index \<open>i\<close>:
  \<^item> at an index before the last, the last element overwrites the one at \<open>i\<close>;
  \<^item> at the last index, the store lands one past the end of the shortened array, which
    extends it again: the array is what it was;
  \<^item> at \<open>i = -1\<close> (release builds, element not found) the store sets the property
    \<^verbatim>\<open>"-1"\<close>, which is no element: the array has lost its last element.
\<close>

definition swap_pop :: "sid list \<Rightarrow> nat option \<Rightarrow> sid list" where
  "swap_pop xs i =
     (case i of
        None \<Rightarrow> butlast xs
      | Some j \<Rightarrow> (if Suc j < length xs then (butlast xs)[j := last xs] else xs))"

text \<open>Removal from a field holding \<open>subs\<close>; \<open>msg\<close> is the text the debug checks throw.
  Reading \<^verbatim>\<open>subscriptions.constructor\<close> on \<^verbatim>\<open>null\<close> is a \<^verbatim>\<open>TypeError\<close>. The result is
  the new value of the field, when the field is written, and the new arrays.\<close>

definition remove_from ::
  "bool \<Rightarrow> string \<Rightarrow> subscriptions \<Rightarrow> sid \<Rightarrow> (aid \<Rightarrow> sid list)
     \<Rightarrow> error + (subscriptions \<times> (aid \<Rightarrow> sid list))" where
  "remove_from debug msg subs s arrs =
     (case subs of
        Null \<Rightarrow> Inl TypeError
      | Single s0 \<Rightarrow> (if debug \<and> s0 \<noteq> s then Inl (Thrown msg) else Inr (Null, arrs))
      | Array a \<Rightarrow>
          (if length (arrs a) = 1
           then (if debug \<and> arrs a ! 0 \<noteq> s then Inl (Thrown msg) else Inr (Null, arrs))
           else (let i = indexOf (arrs a) s
                 in if debug \<and> i = None then Inl (Thrown msg)
                    else Inr (Array a, arrs(a := swap_pop (arrs a) i)))))"

section \<open>kivi.Invalidator\<close>

text \<open>The constructor: \<^verbatim>\<open>mtime\<close> is the scheduler's clock, both sets are \<^verbatim>\<open>null\<close>.\<close>

definition Invalidator_new :: "world \<Rightarrow> iid \<times> world" where
  "Invalidator_new w =
     (next_iid w,
      w\<lparr>invalidators := (invalidators w)(next_iid w :=
           \<lparr>inv_mtime = clock w, inv_subscriptions = Null, inv_transientSubscriptions = Null\<rparr>),
        next_iid := Suc (next_iid w)\<rparr>)"

definition has_entries :: "world \<Rightarrow> subscriptions \<Rightarrow> bool" where
  "has_entries w subs =
     (case subs of Null \<Rightarrow> False | Single s \<Rightarrow> True | Array a \<Rightarrow> 0 < length (arrays w a))"

definition Invalidator_hasSubscriptions :: "iid \<Rightarrow> world \<Rightarrow> bool" where
  "Invalidator_hasSubscriptions i w =
     (has_entries w (inv_subscriptions (invalidators w i)) \<or>
      has_entries w (inv_transientSubscriptions (invalidators w i)))"

definition Invalidator_addSubscription :: "iid \<Rightarrow> sid \<Rightarrow> world \<Rightarrow> world" where
  "Invalidator_addSubscription i s w =
     (if sub_flags (subscriptions w s) AND TRANSIENT = 0
      then (let (subs, w1) = add_to (inv_subscriptions (invalidators w i)) s w
            in w1\<lparr>invalidators := (invalidators w1)(i :=
                    (invalidators w1 i)\<lparr>inv_subscriptions := subs\<rparr>)\<rparr>)
      else (let (subs, w1) = add_to (inv_transientSubscriptions (invalidators w i)) s w
            in w1\<lparr>invalidators := (invalidators w1)(i :=
                    (invalidators w1 i)\<lparr>inv_transientSubscriptions := subs\<rparr>)\<rparr>))"

definition Invalidator_removeSubscription :: "env \<Rightarrow> iid \<Rightarrow> sid \<Rightarrow> world \<Rightarrow> outcome" where
  "Invalidator_removeSubscription E i s w =
     (if sub_flags (subscriptions w s) AND TRANSIENT = 0
      then (case remove_from (DEBUG E)
                   ''Failed to remove subscription from Invalidator: cannot find appropriate subscription''
                   (inv_subscriptions (invalidators w i)) s (arrays w) of
              Inl e \<Rightarrow> Raised e w
            | Inr (subs, arrs) \<Rightarrow>
                Done (w\<lparr>invalidators := (invalidators w)(i :=
                          (invalidators w i)\<lparr>inv_subscriptions := subs\<rparr>),
                        arrays := arrs\<rparr>))
      else (case remove_from (DEBUG E)
                   ''Failed to remove subscription from Invalidator: cannot find appropriate subscription''
                   (inv_transientSubscriptions (invalidators w i)) s (arrays w) of
              Inl e \<Rightarrow> Raised e w
            | Inr (subs, arrs) \<Rightarrow>
                Done (w\<lparr>invalidators := (invalidators w)(i :=
                          (invalidators w i)\<lparr>inv_transientSubscriptions := subs\<rparr>),
                        arrays := arrs\<rparr>)))"

section \<open>kivi.Component\<close>

text \<open>
  Modelled from the spec: \<^verbatim>\<open>kivi.scheduler.instance.nextFrame().updateComponent(c)\<close>
  and \<^verbatim>\<open>kivi.scheduler.instance.startUpdateComponentEachFrame(c)\<close> belong to the
  scheduler, which is not among the sources; each registers the component in its queue.
\<close>

definition scheduler_nextFrame_updateComponent :: "cid \<Rightarrow> world \<Rightarrow> world" where
  "scheduler_nextFrame_updateComponent c w = w\<lparr>nextFrame := nextFrame w @ [c]\<rparr>"

definition scheduler_startUpdateComponentEachFrame :: "cid \<Rightarrow> world \<Rightarrow> world" where
  "scheduler_startUpdateComponentEachFrame c w = w\<lparr>eachFrame := eachFrame w @ [c]\<rparr>"

text \<open>Writing the fields of \<^verbatim>\<open>this\<close>.\<close>

definition set_c_flags :: "cid \<Rightarrow> flags \<Rightarrow> world \<Rightarrow> world" where
  "set_c_flags c f w = w\<lparr>components := (components w)(c := (components w c)\<lparr>c_flags := f\<rparr>)\<rparr>"

definition set_c_subscriptions :: "cid \<Rightarrow> subscriptions \<Rightarrow> world \<Rightarrow> world" where
  "set_c_subscriptions c subs w =
     w\<lparr>components := (components w)(c := (components w c)\<lparr>c_subscriptions := subs\<rparr>)\<rparr>"

definition set_c_transientSubscriptions :: "cid \<Rightarrow> subscriptions \<Rightarrow> world \<Rightarrow> world" where
  "set_c_transientSubscriptions c subs w =
     w\<lparr>components := (components w)(c := (components w c)\<lparr>c_transientSubscriptions := subs\<rparr>)\<rparr>"

text \<open>The constructor of \<^verbatim>\<open>kivi.Component\<close>. The debug build also tags the element
  (\<^verbatim>\<open>setAttribute\<close>, \<^verbatim>\<open>_kiviComponent\<close>), which nothing here reads.\<close>

definition Component_new :: "flags \<Rightarrow> did \<Rightarrow> cid option \<Rightarrow> element \<Rightarrow> world \<Rightarrow> cid \<times> world" where
  "Component_new f d parent el w =
     (next_cid w,
      w\<lparr>components := (components w)(next_cid w :=
           \<lparr>c_flags = f, c_mtime = 0, c_descriptor = d, c_parent = parent,
            c_depth = (case parent of None \<Rightarrow> 0 | Some p \<Rightarrow> c_depth (components w p) + 1),
            c_element = el, c_root = None,
            c_subscriptions = Null, c_transientSubscriptions = Null\<rparr>),
        next_cid := Suc (next_cid w)\<rparr>)"

text \<open>\<^verbatim>\<open>kivi.Component.create\<close> and \<^verbatim>\<open>kivi.Component.mount\<close> return the new component:
  the first part of the result, meaningful when the outcome is \<open>Done\<close>.\<close>

definition Component_create :: "env \<Rightarrow> did \<Rightarrow> cid option \<Rightarrow> world \<Rightarrow> cid \<times> outcome" where
  "Component_create E d context w =
     (let el = (if d_flags (descriptors w d) AND SVG = 0
                then createElement (d_tag (descriptors w d))
                else createElementNS (HtmlNamespace_SVG E) (d_tag (descriptors w d)));
          (c, w1) = Component_new (SHOULD_UPDATE_FLAGS E) d context el w
      in (c, case d_init (descriptors w1 d) of
               None \<Rightarrow> Done w1
             | Some f \<Rightarrow> hook E f c w1))"

definition Component_mount ::
  "env \<Rightarrow> did \<Rightarrow> cid option \<Rightarrow> element \<Rightarrow> world \<Rightarrow> cid \<times> outcome" where
  "Component_mount E d context el w =
     (let (c, w1) = Component_new (SHOULD_UPDATE_FLAGS E OR MOUNTING E) d context el w
      in (c, case d_init (descriptors w1 d) of
               None \<Rightarrow> Done w1
             | Some f \<Rightarrow> hook E f c w1))"

text \<open>\<^verbatim>\<open>this.descriptor.update(this)\<close> is called without a test for \<^verbatim>\<open>null\<close>; calling
  \<^verbatim>\<open>null\<close> is a \<^verbatim>\<open>TypeError\<close>.\<close>

definition Component_update :: "env \<Rightarrow> cid \<Rightarrow> world \<Rightarrow> outcome" where
  "Component_update E c w =
     (if c_flags (components w c) AND SHOULD_UPDATE_FLAGS E = SHOULD_UPDATE_FLAGS E
      then (case d_update (descriptors w (c_descriptor (components w c))) of
              None \<Rightarrow> Raised TypeError w
            | Some f \<Rightarrow>
                and_then (hook E f c w)
                  (\<lambda>w1. Done (w1\<lparr>components := (components w1)(c :=
                            (components w1 c)\<lparr>c_mtime := clock w1,
                               c_flags := c_flags (components w1 c) AND NOT (DIRTY E)\<rparr>)\<rparr>)))
      else Done w)"

definition Component_syncVRoot :: "env \<Rightarrow> cid \<Rightarrow> vid \<Rightarrow> world \<Rightarrow> outcome" where
  "Component_syncVRoot E c newRoot w =
     and_then
       (case c_root (components w c) of
          None \<Rightarrow>
            (let w1 = w\<lparr>vnodes := (vnodes w)(newRoot := (vnodes w newRoot)\<lparr>v_cref := Some c\<rparr>)\<rparr>
             in if c_flags (components w1 c) AND MOUNTING E \<noteq> 0
                then and_then (vnode_mount E newRoot (c_element (components w1 c)) c w1)
                       (\<lambda>w2. Done (set_c_flags c
                                (c_flags (components w2 c) AND NOT (MOUNTING E)) w2))
                else vnode_render E newRoot c
                       (w1\<lparr>vnodes := (vnodes w1)(newRoot :=
                              (vnodes w1 newRoot)\<lparr>v_ref := Some (c_element (components w1 c))\<rparr>)\<rparr>))
        | Some root \<Rightarrow> vnode_sync E root newRoot c w)
       (\<lambda>w3. Done (w3\<lparr>components := (components w3)(c :=
                 (components w3 c)\<lparr>c_root := Some newRoot\<rparr>)\<rparr>))"

definition Component_removeSubscription :: "env \<Rightarrow> cid \<Rightarrow> sid \<Rightarrow> world \<Rightarrow> outcome" where
  "Component_removeSubscription E c s w =
     (if sub_flags (subscriptions w s) AND TRANSIENT = 0
      then (case remove_from (DEBUG E)
                   ''Failed to remove subscription from Component: cannot find appropriate subscription''
                   (c_subscriptions (components w c)) s (arrays w) of
              Inl e \<Rightarrow> Raised e w
            | Inr (subs, arrs) \<Rightarrow> Done (set_c_subscriptions c subs (w\<lparr>arrays := arrs\<rparr>)))
      else (case remove_from (DEBUG E)
                   ''Failed to remove subscription from Component: cannot find appropriate subscription''
                   (c_transientSubscriptions (components w c)) s (arrays w) of
              Inl e \<Rightarrow> Raised e w
            | Inr (subs, arrs) \<Rightarrow>
                Done (set_c_transientSubscriptions c subs (w\<lparr>arrays := arrs\<rparr>))))"

text \<open>
  The loop \<^verbatim>\<open>for (i = 0; i < subscriptions.length; i++) { s = subscriptions[i];
  s.invalidator.removeSubscription(s); }\<close> of \<^verbatim>\<open>cancelSubscriptions\<close> and
  \<^verbatim>\<open>cancelTransientSubscriptions\<close>, from index \<open>i\<close> on. The array is read again in
  every round. A removal never makes an array longer, so the loop ends.
\<close>

function cancel_each :: "env \<Rightarrow> aid \<Rightarrow> nat \<Rightarrow> world \<Rightarrow> outcome" where
  "cancel_each E a i w =
     (if i < length (arrays w a)
      then (case Invalidator_removeSubscription E
                   (sub_invalidator (subscriptions w (arrays w a ! i))) (arrays w a ! i) w of
              Raised e w' \<Rightarrow> Raised e w'
            | Done w' \<Rightarrow> cancel_each E a (Suc i) w')
      else Done w)"
  by pat_completeness auto
termination
proof (relation "measure (\<lambda>(E, a, i, w). length (arrays w a) - i)")
  show "wf (measure (\<lambda>(E, a, i, w). length (arrays w a) - i))"
    by simp
next
  fix E :: env and a i :: nat and w w' :: world
  assume less: "i < length (arrays w a)"
    and rem: "Invalidator_removeSubscription E
                (sub_invalidator (subscriptions w (arrays w a ! i))) (arrays w a ! i) w = Done w'"
  have shrink: "length (arrs' a) \<le> length (arrs a)"
    if "remove_from d m subs s arrs = Inr (subs', arrs')"
    for d m subs s arrs subs' arrs'
    using that
    by (auto simp: remove_from_def swap_pop_def Let_def
             split: subscriptions.splits if_splits option.splits)
  from rem have "length (arrays w' a) \<le> length (arrays w a)"
    by (auto simp: Invalidator_removeSubscription_def
             split: if_splits sum.splits prod.splits dest: shrink)
  with less show "((E, a, Suc i, w'), (E, a, i, w))
                    \<in> measure (\<lambda>(E, a, i, w). length (arrays w a) - i)"
    by simp
qed

declare cancel_each.simps [simp del]

text \<open>Both cancel functions pass every subscription of the component's set to the
  \<^verbatim>\<open>removeSubscription\<close> of its invalidator and then set the component's field to
  \<^verbatim>\<open>null\<close>.\<close>

definition cancel_set :: "env \<Rightarrow> subscriptions \<Rightarrow> world \<Rightarrow> outcome" where
  "cancel_set E subs w =
     (case subs of
        Null \<Rightarrow> Done w
      | Single s \<Rightarrow> Invalidator_removeSubscription E (sub_invalidator (subscriptions w s)) s w
      | Array a \<Rightarrow> cancel_each E a 0 w)"

definition Component_cancelSubscriptions :: "env \<Rightarrow> cid \<Rightarrow> world \<Rightarrow> outcome" where
  "Component_cancelSubscriptions E c w =
     and_then (cancel_set E (c_subscriptions (components w c)) w)
       (\<lambda>w1. Done (set_c_subscriptions c Null w1))"

definition Component_cancelTransientSubscriptions :: "env \<Rightarrow> cid \<Rightarrow> world \<Rightarrow> outcome" where
  "Component_cancelTransientSubscriptions E c w =
     and_then (cancel_set E (c_transientSubscriptions (components w c)) w)
       (\<lambda>w1. Done (set_c_transientSubscriptions c Null w1))"

definition Component_invalidate :: "env \<Rightarrow> cid \<Rightarrow> world \<Rightarrow> outcome" where
  "Component_invalidate E c w =
     (if c_flags (components w c) AND (DIRTY E OR DISPOSED E) = 0
      then and_then
             (Component_cancelTransientSubscriptions E c
                (set_c_flags c (c_flags (components w c) OR DIRTY E) w))
             (\<lambda>w1. Done (scheduler_nextFrame_updateComponent c w1))
      else Done w)"

definition Component_startUpdateEachFrame :: "env \<Rightarrow> cid \<Rightarrow> world \<Rightarrow> world" where
  "Component_startUpdateEachFrame E c w =
     (let w1 = set_c_flags c (c_flags (components w c) OR UPDATE_EACH_FRAME E) w
      in if c_flags (components w1 c) AND IN_UPDATE_QUEUE E = 0
         then scheduler_startUpdateComponentEachFrame c
                (set_c_flags c (c_flags (components w1 c) OR IN_UPDATE_QUEUE E) w1)
         else w1)"

definition Component_stopUpdateEachFrame :: "env \<Rightarrow> cid \<Rightarrow> world \<Rightarrow> world" where
  "Component_stopUpdateEachFrame E c w =
     set_c_flags c (c_flags (components w c) AND NOT (UPDATE_EACH_FRAME E)) w"

definition Component_dispose :: "env \<Rightarrow> cid \<Rightarrow> world \<Rightarrow> outcome" where
  "Component_dispose E c w =
     (if DEBUG E \<and> c_flags (components w c) AND DISPOSED E \<noteq> 0
      then Raised (Thrown ''Failed to dispose Component: component is already disposed'') w
      else (let w1 = set_c_flags c (c_flags (components w c) OR DISPOSED E) w;
                w2 = set_c_flags c
                       (c_flags (components w1 c) AND NOT (ATTACHED E OR UPDATE_EACH_FRAME E)) w1
            in and_then (Component_cancelSubscriptions E c w2)
                 (\<lambda>w3. and_then (Component_cancelTransientSubscriptions E c w3)
                 (\<lambda>w4. and_then (case c_root (components w4 c) of
                                   None \<Rightarrow> Done w4
                                 | Some root \<Rightarrow> vnode_dispose E root w4)
                 (\<lambda>w5. case d_disposed (descriptors w5 (c_descriptor (components w5 c))) of
                         None \<Rightarrow> Done w5
                       | Some f \<Rightarrow> hook E f c w5)))))"

section \<open>kivi.InvalidatorSubscription\<close>

definition InvalidatorSubscription_new ::
  "flags \<Rightarrow> iid \<Rightarrow> subscriber \<Rightarrow> world \<Rightarrow> sid \<times> world" where
  "InvalidatorSubscription_new f i subscr w =
     (next_sid w,
      w\<lparr>subscriptions := (subscriptions w)(next_sid w :=
           \<lparr>sub_flags = f, sub_invalidator = i, sub_subscriber = subscr,
            sub_isCanceled = False\<rparr>),
        next_sid := Suc (next_sid w)\<rparr>)"

text \<open>With the \<^verbatim>\<open>COMPONENT\<close> flag the subscriber is used as a component; a function has
  no \<^verbatim>\<open>removeSubscription\<close> and no \<^verbatim>\<open>invalidate\<close>, and a component has no \<^verbatim>\<open>call\<close>, so
  a subscriber of the other kind is a \<^verbatim>\<open>TypeError\<close>.\<close>

definition InvalidatorSubscription_cancel :: "env \<Rightarrow> sid \<Rightarrow> world \<Rightarrow> outcome" where
  "InvalidatorSubscription_cancel E s w =
     (if DEBUG E \<and> sub_isCanceled (subscriptions w s)
      then Raised (Thrown
             ''Failed to cancel InvalidatorSubscription: subscription cannot be canceled twice'') w
      else (let w1 = (if DEBUG E
                      then w\<lparr>subscriptions := (subscriptions w)(s :=
                               (subscriptions w s)\<lparr>sub_isCanceled := True\<rparr>)\<rparr>
                      else w)
            in and_then
                 (Invalidator_removeSubscription E (sub_invalidator (subscriptions w1 s)) s w1)
                 (\<lambda>w2. if sub_flags (subscriptions w2 s) AND COMPONENT \<noteq> 0
                        then (case sub_subscriber (subscriptions w2 s) of
                                ComponentRef c \<Rightarrow> Component_removeSubscription E c s w2
                              | Function f \<Rightarrow> Raised TypeError w2)
                        else Done w2)))"

definition InvalidatorSubscription_invalidate :: "env \<Rightarrow> sid \<Rightarrow> world \<Rightarrow> outcome" where
  "InvalidatorSubscription_invalidate E s w =
     (if sub_flags (subscriptions w s) AND COMPONENT \<noteq> 0
      then (case sub_subscriber (subscriptions w s) of
              ComponentRef c \<Rightarrow> Component_invalidate E c w
            | Function f \<Rightarrow> Raised TypeError w)
      else (case sub_subscriber (subscriptions w s) of
              Function f \<Rightarrow> call E f w
            | ComponentRef c \<Rightarrow> Raised TypeError w))"

section \<open>Subscribing a component\<close>

definition Component_subscribe :: "cid \<Rightarrow> iid \<Rightarrow> world \<Rightarrow> world" where
  "Component_subscribe c i w =
     (let (s, w1) = InvalidatorSubscription_new COMPONENT i (ComponentRef c) w;
          w2 = Invalidator_addSubscription i s w1;
          (subs, w3) = add_to (c_subscriptions (components w2 c)) s w2
      in set_c_subscriptions c subs w3)"

definition Component_transientSubscribe :: "cid \<Rightarrow> iid \<Rightarrow> world \<Rightarrow> world" where
  "Component_transientSubscribe c i w =
     (let (s, w1) = InvalidatorSubscription_new (COMPONENT OR TRANSIENT) i (ComponentRef c) w;
          w2 = Invalidator_addSubscription i s w1;
          (subs, w3) = add_to (c_transientSubscriptions (components w2 c)) s w2
      in set_c_transientSubscriptions c subs w3)"

section \<open>Invalidation\<close>

text \<open>
  The loop \<^verbatim>\<open>for (i = 0; i < subscriptions.length; i++) subscriptions[i].invalidate();\<close>
  from index \<open>i\<close> on. It walks the array object itself, whose length and elements are
  read again in every round, after whatever the notified subscriber did to the store. A
  subscriber that adds a subscription to the array in every round keeps the loop going for
  ever, so the loop is a partial function: \<open>None\<close> is a loop that does not end.
\<close>

partial_function (option) notify_each :: "env \<Rightarrow> aid \<Rightarrow> nat \<Rightarrow> world \<Rightarrow> outcome option" where
  "notify_each E a i w =
     (if i < length (arrays w a)
      then (case InvalidatorSubscription_invalidate E (arrays w a ! i) w of
              Raised e w' \<Rightarrow> Some (Raised e w')
            | Done w' \<Rightarrow> notify_each E a (Suc i) w')
      else Some (Done w))"

declare notify_each.simps [code]

definition notify_set :: "env \<Rightarrow> subscriptions \<Rightarrow> world \<Rightarrow> outcome option" where
  "notify_set E subs w =
     (case subs of
        Null \<Rightarrow> Some (Done w)
      | Single s \<Rightarrow> Some (InvalidatorSubscription_invalidate E s w)
      | Array a \<Rightarrow> notify_each E a 0 w)"

definition set_inv_transientSubscriptions :: "iid \<Rightarrow> subscriptions \<Rightarrow> world \<Rightarrow> world" where
  "set_inv_transientSubscriptions i subs w =
     w\<lparr>invalidators := (invalidators w)(i :=
         (invalidators w i)\<lparr>inv_transientSubscriptions := subs\<rparr>)\<rparr>"

definition Invalidator_invalidate :: "env \<Rightarrow> iid \<Rightarrow> world \<Rightarrow> outcome option" where
  "Invalidator_invalidate E i w =
     (let now = clock w
      in if inv_mtime (invalidators w i) < now
         then (let w1 = w\<lparr>invalidators := (invalidators w)(i :=
                            (invalidators w i)\<lparr>inv_mtime := now\<rparr>)\<rparr>
               in case notify_set E (inv_subscriptions (invalidators w1 i)) w1 of
                    None \<Rightarrow> None
                  | Some (Raised e w2) \<Rightarrow> Some (Raised e w2)
                  | Some (Done w2) \<Rightarrow>
                      (case inv_transientSubscriptions (invalidators w2 i) of
                         Null \<Rightarrow> Some (Done w2)
                       | subs \<Rightarrow> notify_set E subs (set_inv_transientSubscriptions i Null w2)))
         else Some (Done w))"

section \<open>The operations of the module\<close>

text \<open>The constructor of \<^verbatim>\<open>kivi.CDescriptor\<close>: every hook starts as \<^verbatim>\<open>null\<close>; the flags
  are 0 when the optional argument is left out.\<close>

definition CDescriptor_new :: "string \<Rightarrow> flags option \<Rightarrow> world \<Rightarrow> did \<times> world" where
  "CDescriptor_new name opt_flags w =
     (next_did w,
      w\<lparr>descriptors := (descriptors w)(next_did w :=
           \<lparr>d_flags = (case opt_flags of None \<Rightarrow> 0 | Some f \<Rightarrow> f), d_tag = ''div'',
            d_init = None, d_setData = None, d_setChildren = None, d_update = None,
            d_invalidated = None, d_disposed = None, d_name = name\<rparr>),
        next_did := Suc (next_did w)\<rparr>)"

text \<open>Every constructor and method of the file, with its arguments, as one call.\<close>

datatype operation =
    New_InvalidatorSubscription flags iid subscriber
  | Subscription_cancel sid
  | Subscription_invalidate sid
  | New_Invalidator
  | Op_hasSubscriptions iid
  | Op_addSubscription iid sid
  | Op_removeSubscription iid sid
  | Op_invalidate iid
  | New_CDescriptor string "flags option"
  | Op_create did "cid option"
  | Op_mount did "cid option" element
  | Op_update cid
  | Op_syncVRoot cid vid
  | Op_Component_invalidate cid
  | Op_startUpdateEachFrame cid
  | Op_stopUpdateEachFrame cid
  | Op_dispose cid
  | Op_subscribe cid iid
  | Op_transientSubscribe cid iid
  | Op_Component_removeSubscription cid sid
  | Op_cancelSubscriptions cid
  | Op_cancelTransientSubscriptions cid

fun run :: "env \<Rightarrow> operation \<Rightarrow> world \<Rightarrow> outcome option" where
  "run E (New_InvalidatorSubscription f i subscr) w =
     Some (Done (snd (InvalidatorSubscription_new f i subscr w)))"
| "run E (Subscription_cancel s) w = Some (InvalidatorSubscription_cancel E s w)"
| "run E (Subscription_invalidate s) w = Some (InvalidatorSubscription_invalidate E s w)"
| "run E New_Invalidator w = Some (Done (snd (Invalidator_new w)))"
| "run E (Op_hasSubscriptions i) w = Some (Done w)"
| "run E (Op_addSubscription i s) w = Some (Done (Invalidator_addSubscription i s w))"
| "run E (Op_removeSubscription i s) w = Some (Invalidator_removeSubscription E i s w)"
| "run E (Op_invalidate i) w = Invalidator_invalidate E i w"
| "run E (New_CDescriptor name opt_flags) w = Some (Done (snd (CDescriptor_new name opt_flags w)))"
| "run E (Op_create d context) w = Some (snd (Component_create E d context w))"
| "run E (Op_mount d context el) w = Some (snd (Component_mount E d context el w))"
| "run E (Op_update c) w = Some (Component_update E c w)"
| "run E (Op_syncVRoot c v) w = Some (Component_syncVRoot E c v w)"
| "run E (Op_Component_invalidate c) w = Some (Component_invalidate E c w)"
| "run E (Op_startUpdateEachFrame c) w = Some (Done (Component_startUpdateEachFrame E c w))"
| "run E (Op_stopUpdateEachFrame c) w = Some (Done (Component_stopUpdateEachFrame E c w))"
| "run E (Op_dispose c) w = Some (Component_dispose E c w)"
| "run E (Op_subscribe c i) w = Some (Done (Component_subscribe c i w))"
| "run E (Op_transientSubscribe c i) w = Some (Done (Component_transientSubscribe c i w))"
| "run E (Op_Component_removeSubscription c s) w = Some (Component_removeSubscription E c s w)"
| "run E (Op_cancelSubscriptions c) w = Some (Component_cancelSubscriptions E c w)"
| "run E (Op_cancelTransientSubscriptions c) w =
     Some (Component_cancelTransientSubscriptions E c w)"

section \<open>Notions used in the properties\<close>

text \<open>Two stores that differ at most in the subscription sets of the invalidators and in
  the arrays: the scheduler, the subscriptions, the components, the descriptors, the
  virtual nodes and every invalidator's \<open>mtime\<close> are the same.\<close>

definition same_objects :: "world \<Rightarrow> world \<Rightarrow> bool" where
  "same_objects w w' \<longleftrightarrow>
     clock w' = clock w \<and> nextFrame w' = nextFrame w \<and> eachFrame w' = eachFrame w \<and>
     subscriptions w' = subscriptions w \<and> components w' = components w \<and>
     descriptors w' = descriptors w \<and> vnodes w' = vnodes w \<and>
     next_iid w' = next_iid w \<and> next_sid w' = next_sid w \<and> next_cid w' = next_cid w \<and>
     next_aid w' = next_aid w \<and> next_did w' = next_did w \<and>
     (\<forall>i. inv_mtime (invalidators w' i) = inv_mtime (invalidators w i))"

subsection \<open>Modification times\<close>

text \<open>From one store to a later one no invalidator is lost and the \<open>mtime\<close> of no
  invalidator that exists has decreased. (The invalidators that exist are those below the
  next fresh reference.)\<close>

definition mtime_kept :: "world \<Rightarrow> world \<Rightarrow> bool" where
  "mtime_kept w w' \<longleftrightarrow>
     next_iid w \<le> next_iid w' \<and>
     (\<forall>i<next_iid w. inv_mtime (invalidators w i) \<le> inv_mtime (invalidators w' i))"

text \<open>What is called from outside this file (the callbacks, the hooks, the renderer)
  never decreases an \<open>mtime\<close> either, whatever the store it runs in.\<close>

definition outside_keeps_mtime :: "env \<Rightarrow> bool" where
  "outside_keeps_mtime E \<longleftrightarrow>
     (\<forall>f w. mtime_kept w (world_of (call E f w))) \<and>
     (\<forall>f c w. mtime_kept w (world_of (hook E f c w))) \<and>
     (\<forall>v el c w. mtime_kept w (world_of (vnode_mount E v el c w))) \<and>
     (\<forall>v c w. mtime_kept w (world_of (vnode_render E v c w))) \<and>
     (\<forall>v v' c w. mtime_kept w (world_of (vnode_sync E v v' c w))) \<and>
     (\<forall>v w. mtime_kept w (world_of (vnode_dispose E v w)))"

subsection \<open>The wave of the specification\<close>

text \<open>The entries of a subscription set, in the order of the array.\<close>

definition entries :: "world \<Rightarrow> subscriptions \<Rightarrow> sid list" where
  "entries w subs = (case subs of Null \<Rightarrow> [] | Single s \<Rightarrow> [s] | Array a \<Rightarrow> arrays w a)"













section \<open>Concrete stores\<close>

text \<open>An environment for a debug build, with distinct flag bits, whose callbacks, hooks
  and renderer return at once and leave the store alone.\<close>

definition silent_env :: env where
  "silent_env =
     \<lparr>DEBUG = True, ATTACHED = 2, MOUNTING = 4, DIRTY = 8, DISPOSED = 1,
      UPDATE_EACH_FRAME = 16, IN_UPDATE_QUEUE = 32, SHOULD_UPDATE_FLAGS = 10,
      HtmlNamespace_SVG = ''http://www.w3.org/2000/svg'',
      call = (\<lambda>f w. Done w), hook = (\<lambda>f c w. Done w),
      vnode_mount = (\<lambda>v el c w. Done w), vnode_render = (\<lambda>v c w. Done w),
      vnode_sync = (\<lambda>v v' c w. Done w), vnode_dispose = (\<lambda>v w. Done w)\<rparr>"

text \<open>The store before anything was created, at clock 0.\<close>

definition empty_world :: world where
  "empty_world =
     \<lparr>clock = 0, nextFrame = [], eachFrame = [],
      invalidators = (\<lambda>i. \<lparr>inv_mtime = 0, inv_subscriptions = Null,
                             inv_transientSubscriptions = Null\<rparr>),
      subscriptions = (\<lambda>s. \<lparr>sub_flags = 0, sub_invalidator = 0,
                              sub_subscriber = Function 0, sub_isCanceled = False\<rparr>),
      components = (\<lambda>c. \<lparr>c_flags = 0, c_mtime = 0, c_descriptor = 0, c_parent = None,
                           c_depth = 0, c_element = createElement [], c_root = None,
                           c_subscriptions = Null, c_transientSubscriptions = Null\<rparr>),
      arrays = (\<lambda>a. []),
      descriptors = (\<lambda>d. \<lparr>d_flags = 0, d_tag = [], d_init = None, d_setData = None,
                            d_setChildren = None, d_update = None, d_invalidated = None,
                            d_disposed = None, d_name = []\<rparr>),
      vnodes = (\<lambda>v. \<lparr>v_cref = None, v_ref = None\<rparr>),
      next_iid = 0, next_sid = 0, next_cid = 0, next_aid = 0, next_did = 0\<rparr>"

text \<open>Component 0, just constructed with the ready-to-update flags, after
  \<^verbatim>\<open>startUpdateEachFrame()\<close>.\<close>

definition queued_world :: world where
  "queued_world =
     Component_startUpdateEachFrame silent_env 0
       (snd (Component_new (SHOULD_UPDATE_FLAGS silent_env) 0 None (createElement ''div'')
               empty_world))"

text \<open>An environment whose hook 0 is an update hook that reads invalidator 0 while
  rendering: it subscribes the component transiently to it.\<close>

definition rendering_env :: env where
  "rendering_env =
     silent_env\<lparr>hook := (\<lambda>f c w. if f = 0 then Done (Component_transientSubscribe c 0 w)
                                  else Done w)\<rparr>"

text \<open>A descriptor whose \<^verbatim>\<open>update\<close> is hook 0, invalidator 0 and component 0, all
  created at clock 0; then the clock moves to 1.\<close>

definition ready_world :: world where
  "ready_world =
     (let (d, w1) = CDescriptor_new ''Main'' None empty_world;
          w2 = w1\<lparr>descriptors := (descriptors w1)(d := (descriptors w1 d)\<lparr>d_update := Some 0\<rparr>)\<rparr>;
          (i, w3) = Invalidator_new w2;
          (c, r) = Component_create rendering_env d None w3
      in (world_of r)\<lparr>clock := 1\<rparr>)"

text \<open>The same store after the component's first \<^verbatim>\<open>update()\<close>: the component is
  attached, not dirty, and holds a transient subscription to invalidator 0.\<close>

definition rendered_world :: world where
  "rendered_world = world_of (Component_update rendering_env 0 ready_world)"

text \<open>An environment with a visible renderer and a visible \<^verbatim>\<open>disposed\<close> hook: disposing
  a virtual node drops its back reference to the component, and hook 1 drops the element
  of virtual node 0.\<close>

definition disposing_env :: env where
  "disposing_env =
     rendering_env\<lparr>hook := (\<lambda>f c w.
         if f = 0 then Done (Component_transientSubscribe c 0 w)
         else if f = 1 then Done (w\<lparr>vnodes := (vnodes w)(0 := (vnodes w 0)\<lparr>v_ref := None\<rparr>)\<rparr>)
         else Done w),
       vnode_dispose := (\<lambda>v w. Done (w\<lparr>vnodes := (vnodes w)(v := (vnodes w v)\<lparr>v_cref := None\<rparr>)\<rparr>))\<rparr>"

text \<open>The rendered component, now also durably subscribed to invalidator 0, with hook 1
  as its descriptor's \<^verbatim>\<open>disposed\<close> and virtual node 0 as its root.\<close>

definition mounted_world :: world where
  "mounted_world =
     (let w1 = Component_subscribe 0 0 rendered_world;
          w2 = w1\<lparr>descriptors := (descriptors w1)(0 := (descriptors w1 0)\<lparr>d_disposed := Some 1\<rparr>)\<rparr>
      in world_of (Component_syncVRoot disposing_env 0 0 w2))"

text \<open>The same store after \<^verbatim>\<open>dispose()\<close>.\<close>

definition disposed_world :: world where
  "disposed_world = world_of (Component_dispose disposing_env 0 mounted_world)"

text \<open>The store after invalidator 0 of \<open>mounted_world\<close> was invalidated.\<close>

definition invalidated_world :: world where
  "invalidated_world = world_of (the (Invalidator_invalidate disposing_env 0 mounted_world))"

text \<open>A descriptor whose update hook is hook 2, which does nothing.\<close>

definition shared_descriptor :: world where
  "shared_descriptor =
     (snd (CDescriptor_new ''Item'' None empty_world))
       \<lparr>descriptors := (descriptors (snd (CDescriptor_new ''Item'' None empty_world)))(0 :=
          (descriptors (snd (CDescriptor_new ''Item'' None empty_world)) 0)\<lparr>d_update := Some 2\<rparr>)\<rparr>"

text \<open>Invalidator 0 and the components 0 and 1 of that descriptor.\<close>

definition shared_components :: world where
  "shared_components =
     world_of (snd (Component_create rendering_env 0 None
       (world_of (snd (Component_create rendering_env 0 None
          (snd (Invalidator_new shared_descriptor)))))))"

text \<open>Component 0 and then component 1 subscribe durably to invalidator 0 (subscriptions 0
  and 1); both are updated; then the clock moves to 1.\<close>

definition shared_world :: world where
  "shared_world =
     (world_of (Component_update rendering_env 1
        (world_of (Component_update rendering_env 0
           (Component_subscribe 1 0 (Component_subscribe 0 0 shared_components))))))
       \<lparr>clock := 1\<rparr>"

text \<open>The same store after subscription 1, the one of component 1, was canceled.\<close>

definition unsubscribed_world :: world where
  "unsubscribed_world = world_of (InvalidatorSubscription_cancel rendering_env 1 shared_world)"

text \<open>\<open>shared_world\<close> after component 1 was disposed.\<close>

definition disposed_shared_world :: world where
  "disposed_shared_world = world_of (Component_dispose rendering_env 1 shared_world)"

text \<open>An environment in which callback \<open>f\<close> starts the continuous update of component
  \<open>f\<close>; before that, callback 1 cancels subscription 0.\<close>

definition cancelling_env :: env where
  "cancelling_env =
     silent_env\<lparr>call := (\<lambda>f w.
        and_then (if f = 1 then InvalidatorSubscription_cancel silent_env 0 w else Done w)
          (\<lambda>w'. Done (Component_startUpdateEachFrame silent_env f w')))\<rparr>"

text \<open>A descriptor, invalidator 0 and the components 0, 1 and 2.\<close>

definition three_components :: world where
  "three_components =
     world_of (snd (Component_create silent_env 0 None
       (world_of (snd (Component_create silent_env 0 None
          (world_of (snd (Component_create silent_env 0 None
             (snd (Invalidator_new (snd (CDescriptor_new ''Item'' None empty_world))))))))))))"

text \<open>The callbacks 0, 1 and 2 are subscribed durably to invalidator 0, in this order
  (subscriptions 0, 1 and 2); then the clock moves to 1.\<close>

definition three_callbacks_world :: world where
  "three_callbacks_world =
     (Invalidator_addSubscription 0 2 (snd (InvalidatorSubscription_new 0 0 (Function 2)
        (Invalidator_addSubscription 0 1 (snd (InvalidatorSubscription_new 0 0 (Function 1)
           (Invalidator_addSubscription 0 0 (snd (InvalidatorSubscription_new 0 0 (Function 0)
              three_components)))))))))
       \<lparr>clock := 1\<rparr>"






section \<open>What a removal leaves alone\<close>

lemma same_objects_refl: "same_objects w w"
  by (simp add: same_objects_def)

lemma same_objects_trans: "same_objects w w1 \<Longrightarrow> same_objects w1 w2 \<Longrightarrow> same_objects w w2"
  by (simp add: same_objects_def)

lemma Invalidator_removeSubscription_same:
  "same_objects w (world_of (Invalidator_removeSubscription E i s w))"
  by (simp add: Invalidator_removeSubscription_def same_objects_def split: sum.splits prod.splits)

lemma cancel_each_same: "same_objects w (world_of (cancel_each E a i w))"
proof (induction E a i w rule: cancel_each.induct)
  case (1 E a i w)
  let ?r = "Invalidator_removeSubscription E
              (sub_invalidator (subscriptions w (arrays w a ! i))) (arrays w a ! i) w"
  have r: "same_objects w (world_of ?r)"
    by (rule Invalidator_removeSubscription_same)
  show ?case
  proof (cases "i < length (arrays w a)")
    case False
    then show ?thesis by (subst cancel_each.simps) (simp add: same_objects_refl)
  next
    case True
    show ?thesis
    proof (cases ?r)
      case (Raised e w')
      with True r show ?thesis
        by (subst cancel_each.simps) simp
    next
      case (Done w')
      with r have "same_objects w w'" by simp
      moreover from "1.IH" [OF True Done]
      have "same_objects w' (world_of (cancel_each E a (Suc i) w'))" .
      ultimately have "same_objects w (world_of (cancel_each E a (Suc i) w'))"
        by (rule same_objects_trans)
      with True Done show ?thesis
        by (subst cancel_each.simps) simp
    qed
  qed
qed

lemma cancel_set_same: "same_objects w (world_of (cancel_set E subs w))"
  by (cases subs)
     (simp_all add: cancel_set_def same_objects_refl Invalidator_removeSubscription_same
        cancel_each_same)

lemma cancel_set_components:
  "components (world_of (cancel_set E subs w)) = components w"
  using cancel_set_same [of w E subs] by (simp add: same_objects_def)

lemma cancel_set_nextFrame:
  "nextFrame (world_of (cancel_set E subs w)) = nextFrame w"
  using cancel_set_same [of w E subs] by (simp add: same_objects_def)

lemma Done_world_of: "is_Done r \<Longrightarrow> r = Done (world_of r)"
  by (cases r) simp_all

section \<open>Evaluating the concrete stores\<close>

lemmas example_defs = rendering_env_def ready_world_def rendered_world_def
  silent_env_def empty_world_def

lemmas op_defs = Component_new_def Component_create_def CDescriptor_new_def Invalidator_new_def
  Component_update_def Component_transientSubscribe_def Component_subscribe_def
  InvalidatorSubscription_new_def Invalidator_addSubscription_def add_to_def
  set_c_flags_def set_c_subscriptions_def set_c_transientSubscriptions_def
  Component_invalidate_def Component_cancelTransientSubscriptions_def cancel_set_def
  Invalidator_removeSubscription_def remove_from_def swap_pop_def
  scheduler_nextFrame_updateComponent_def Component_startUpdateEachFrame_def
  scheduler_startUpdateComponentEachFrame_def Component_removeSubscription_def
  InvalidatorSubscription_cancel_def InvalidatorSubscription_invalidate_def
  Invalidator_invalidate_def notify_set_def set_inv_transientSubscriptions_def
  COMPONENT_def TRANSIENT_def SVG_def Let_def

lemma silent_env_fields:
  "DEBUG silent_env" "ATTACHED silent_env = 2" "MOUNTING silent_env = 4" "DIRTY silent_env = 8"
  "DISPOSED silent_env = 1" "UPDATE_EACH_FRAME silent_env = 16" "IN_UPDATE_QUEUE silent_env = 32"
  "SHOULD_UPDATE_FLAGS silent_env = 10"
  by (simp_all add: silent_env_def)

lemma rendering_env_fields:
  "DEBUG rendering_env" "ATTACHED rendering_env = 2" "MOUNTING rendering_env = 4"
  "DIRTY rendering_env = 8" "DISPOSED rendering_env = 1" "UPDATE_EACH_FRAME rendering_env = 16"
  "IN_UPDATE_QUEUE rendering_env = 32" "SHOULD_UPDATE_FLAGS rendering_env = 10"
  by (simp_all add: rendering_env_def silent_env_def)

lemma queued_world_facts:
  "c_flags (components queued_world 0) = 58"
  "eachFrame queued_world = [0]"
  "d_update (descriptors queued_world (c_descriptor (components queued_world 0))) = None"
  by (simp_all add: queued_world_def example_defs op_defs)

lemma ready_world_facts:
  "c_flags (components ready_world 0) = 10"
  "d_update (descriptors ready_world (c_descriptor (components ready_world 0))) = Some 0"
  "clock ready_world = 1"
  by (simp_all add: example_defs op_defs)

lemma rendered_world_facts:
  "Component_update rendering_env 0 ready_world = Done rendered_world"
  "hook rendering_env 0 0 ready_world = Done (Component_transientSubscribe 0 0 ready_world)"
  "clock rendered_world = 1"
  "c_flags (components rendered_world 0) = 2"
  "c_mtime (components rendered_world 0) = 1"
  "c_transientSubscriptions (components rendered_world 0) = Single 0"
  "inv_mtime (invalidators rendered_world 0) = 0"
  "inv_subscriptions (invalidators rendered_world 0) = Null"
  "inv_transientSubscriptions (invalidators rendered_world 0) = Single 0"
  "sub_flags (subscriptions rendered_world 0) = 3"
  "sub_invalidator (subscriptions rendered_world 0) = 0"
  "sub_subscriber (subscriptions rendered_world 0) = ComponentRef 0"
  "nextFrame rendered_world = []"
  by (simp_all add: example_defs op_defs)

section \<open>Continuous update mode\<close>

text \<open>
  C10. \<^verbatim>\<open>stopUpdateEachFrame()\<close> writes one field of one component, its flags, and
  clears there the bits of \<open>UPDATE_EACH_FRAME\<close> and no other bit. When the constant
  \<open>IN_UPDATE_QUEUE\<close> shares no bit with \<open>UPDATE_EACH_FRAME\<close>, the \<open>IN_UPDATE_QUEUE\<close>
  bits are therefore what they were; and when they were set, a \<^verbatim>\<open>startUpdateEachFrame()\<close>
  after the stop sets \<open>UPDATE_EACH_FRAME\<close> again and registers nothing with the scheduler.
\<close>

theorem stopUpdateEachFrame_only_clears_its_flag:
  "Component_stopUpdateEachFrame E c w =
     w\<lparr>components := (components w)(c := (components w c)
        \<lparr>c_flags := c_flags (components w c) AND NOT (UPDATE_EACH_FRAME E)\<rparr>)\<rparr> \<and>
   c_flags (components (Component_stopUpdateEachFrame E c w) c) AND UPDATE_EACH_FRAME E = 0 \<and>
   c_flags (components (Component_stopUpdateEachFrame E c w) c) AND NOT (UPDATE_EACH_FRAME E) =
     c_flags (components w c) AND NOT (UPDATE_EACH_FRAME E) \<and>
   (IN_UPDATE_QUEUE E AND UPDATE_EACH_FRAME E = 0 \<longrightarrow>
      c_flags (components (Component_stopUpdateEachFrame E c w) c) AND IN_UPDATE_QUEUE E =
        c_flags (components w c) AND IN_UPDATE_QUEUE E \<and>
      (c_flags (components w c) AND IN_UPDATE_QUEUE E \<noteq> 0 \<longrightarrow>
         Component_startUpdateEachFrame E c (Component_stopUpdateEachFrame E c w) =
           w\<lparr>components := (components w)(c := (components w c)
              \<lparr>c_flags := c_flags (components w c) OR UPDATE_EACH_FRAME E\<rparr>)\<rparr> \<and>
         eachFrame (Component_startUpdateEachFrame E c (Component_stopUpdateEachFrame E c w)) =
           eachFrame w))"
proof -
  let ?f = "c_flags (components w c)"
  let ?U = "UPDATE_EACH_FRAME E"
  let ?Q = "IN_UPDATE_QUEUE E"
  have stop: "Component_stopUpdateEachFrame E c w =
     w\<lparr>components := (components w)(c := (components w c)\<lparr>c_flags := ?f AND NOT ?U\<rparr>)\<rparr>"
    by (simp add: Component_stopUpdateEachFrame_def set_c_flags_def)
  have clear: "(?f AND NOT ?U) AND ?U = 0"
    by (simp add: bit_eq_iff bit_simps)
  have keep: "(?f AND NOT ?U) AND NOT ?U = ?f AND NOT ?U"
    by (auto simp: bit_eq_iff bit_simps)
  have queue: "(?f AND NOT ?U) AND ?Q = ?f AND ?Q" if "?Q AND ?U = 0"
    using that by (auto simp: bit_eq_iff bit_simps)
  have again: "(?f AND NOT ?U) OR ?U = ?f OR ?U"
    by (auto simp: bit_eq_iff bit_simps)
  have queue': "(?f OR ?U) AND ?Q = ?f AND ?Q" if "?Q AND ?U = 0"
    using that by (auto simp: bit_eq_iff bit_simps)
  show ?thesis
    using clear keep queue again queue'
    by (simp add: stop Component_startUpdateEachFrame_def set_c_flags_def Let_def)
qed

text \<open>The component of \<open>queued_world\<close> is in the scheduler's recurring set once; after a
  stop and a start it has its flags back and is still there once.\<close>

theorem stopUpdateEachFrame_witness:
  "IN_UPDATE_QUEUE silent_env AND UPDATE_EACH_FRAME silent_env = 0 \<and>
   c_flags (components queued_world 0) AND IN_UPDATE_QUEUE silent_env \<noteq> 0 \<and>
   eachFrame queued_world = [0] \<and>
   c_flags (components (Component_stopUpdateEachFrame silent_env 0 queued_world) 0) = 42 \<and>
   c_flags (components (Component_startUpdateEachFrame silent_env 0
       (Component_stopUpdateEachFrame silent_env 0 queued_world)) 0) = 58 \<and>
   eachFrame (Component_startUpdateEachFrame silent_env 0
       (Component_stopUpdateEachFrame silent_env 0 queued_world)) = [0]"
proof -
  have apart: "IN_UPDATE_QUEUE silent_env AND UPDATE_EACH_FRAME silent_env = 0"
    by (simp add: silent_env_fields)
  have queued: "c_flags (components queued_world 0) AND IN_UPDATE_QUEUE silent_env \<noteq> 0"
    by (simp add: queued_world_facts silent_env_fields)
  from stopUpdateEachFrame_only_clears_its_flag [of silent_env 0 queued_world] apart queued
  have stop: "Component_stopUpdateEachFrame silent_env 0 queued_world =
      queued_world\<lparr>components := (components queued_world)(0 := (components queued_world 0)
        \<lparr>c_flags := c_flags (components queued_world 0) AND
                     NOT (UPDATE_EACH_FRAME silent_env)\<rparr>)\<rparr>"
    and start: "Component_startUpdateEachFrame silent_env 0
        (Component_stopUpdateEachFrame silent_env 0 queued_world) =
      queued_world\<lparr>components := (components queued_world)(0 := (components queued_world 0)
        \<lparr>c_flags := c_flags (components queued_world 0) OR UPDATE_EACH_FRAME silent_env\<rparr>)\<rparr>"
    by blast+
  show ?thesis
    unfolding start unfolding stop
    by (simp add: queued_world_facts silent_env_fields)
qed

section \<open>Updating a component\<close>

text \<open>
  C9. \<^verbatim>\<open>update()\<close> calls the descriptor's \<^verbatim>\<open>update\<close> hook without testing it for
  \<^verbatim>\<open>null\<close>: on a component whose flags contain the whole readiness mask and whose
  descriptor has no update hook, the call fails with a \<^verbatim>\<open>TypeError\<close> and the store is
  as it was. The case arises at once: the constructor of a descriptor leaves the hook
  \<^verbatim>\<open>null\<close>, and \<^verbatim>\<open>Component.create\<close> on such a descriptor returns a component that
  is ready to update, whose \<^verbatim>\<open>update()\<close> fails.
\<close>

theorem update_calls_null_hook:
  "(c_flags (components w c) AND SHOULD_UPDATE_FLAGS E = SHOULD_UPDATE_FLAGS E \<longrightarrow>
    d_update (descriptors w (c_descriptor (components w c))) = None \<longrightarrow>
      Component_update E c w = Raised TypeError w) \<and>
   (let (d, w1) = CDescriptor_new name opt_flags w;
        (c', r) = Component_create E d context w1
    in is_Done r \<and> Component_update E c' (world_of r) = Raised TypeError (world_of r))"
  by (simp add: Component_update_def CDescriptor_new_def Component_create_def Component_new_def
        Let_def)

theorem update_calls_null_hook_witness:
  "c_flags (components queued_world 0) AND SHOULD_UPDATE_FLAGS silent_env =
     SHOULD_UPDATE_FLAGS silent_env \<and>
   d_update (descriptors queued_world (c_descriptor (components queued_world 0))) = None \<and>
   Component_update silent_env 0 queued_world = Raised TypeError queued_world"
  using update_calls_null_hook [of queued_world 0 silent_env]
  by (simp add: queued_world_facts silent_env_fields)

text \<open>
  C5. \<^verbatim>\<open>update()\<close> on a component whose flags do not contain the whole readiness mask
  returns with the store unchanged, whatever the hooks are: no hook runs, \<open>Dirty\<close> and
  \<open>mtime\<close> are what they were. On a component whose flags contain the mask it runs the
  descriptor's update hook, once and first; when the hook throws, so does \<^verbatim>\<open>update()\<close>,
  and when the hook returns, \<^verbatim>\<open>update()\<close> changes two fields of the component in the
  store the hook left: \<open>mtime\<close> becomes the scheduler's clock and the \<open>DIRTY\<close> bits of
  the flags are cleared.
\<close>

theorem update_gating:
  "(c_flags (components w c) AND SHOULD_UPDATE_FLAGS E \<noteq> SHOULD_UPDATE_FLAGS E \<longrightarrow>
      Component_update E c w = Done w) \<and>
   (c_flags (components w c) AND SHOULD_UPDATE_FLAGS E = SHOULD_UPDATE_FLAGS E \<longrightarrow>
    d_update (descriptors w (c_descriptor (components w c))) = Some f \<longrightarrow>
      (\<forall>e w1. hook E f c w = Raised e w1 \<longrightarrow> Component_update E c w = Raised e w1) \<and>
      (\<forall>w1. hook E f c w = Done w1 \<longrightarrow>
         Component_update E c w =
           Done (w1\<lparr>components := (components w1)(c := (components w1 c)
                   \<lparr>c_mtime := clock w1,
                    c_flags := c_flags (components w1 c) AND NOT (DIRTY E)\<rparr>)\<rparr>) \<and>
         c_mtime (components (world_of (Component_update E c w)) c) =
           clock (world_of (Component_update E c w)) \<and>
         c_flags (components (world_of (Component_update E c w)) c) AND DIRTY E = 0))"
proof -
  have clear: "(x AND NOT y) AND y = 0" for x y :: flags
    by (simp add: bit_eq_iff bit_simps)
  show ?thesis
    by (simp add: Component_update_def clear)
qed

text \<open>In \<open>ready_world\<close> the component is ready: the hook runs (the component comes out
  subscribed), \<open>mtime\<close> is the clock, 1, and \<open>DIRTY\<close> is cleared. In the store that
  results the component is no longer ready, and a second \<^verbatim>\<open>update()\<close> changes nothing.\<close>

theorem update_gating_witness:
  "c_flags (components ready_world 0) AND SHOULD_UPDATE_FLAGS rendering_env =
     SHOULD_UPDATE_FLAGS rendering_env \<and>
   d_update (descriptors ready_world (c_descriptor (components ready_world 0))) = Some 0 \<and>
   hook rendering_env 0 0 ready_world = Done (Component_transientSubscribe 0 0 ready_world) \<and>
   Component_update rendering_env 0 ready_world = Done rendered_world \<and>
   c_transientSubscriptions (components rendered_world 0) = Single 0 \<and>
   c_mtime (components rendered_world 0) = 1 \<and>
   c_flags (components rendered_world 0) AND DIRTY rendering_env = 0 \<and>
   c_flags (components rendered_world 0) AND SHOULD_UPDATE_FLAGS rendering_env \<noteq>
     SHOULD_UPDATE_FLAGS rendering_env \<and>
   Component_update rendering_env 0 rendered_world = Done rendered_world"
  using update_gating [of ready_world 0 rendering_env 0]
    update_gating [of rendered_world 0 rendering_env 0]
  by (simp add: ready_world_facts rendered_world_facts rendering_env_fields)

section \<open>Invalidating a component\<close>

lemma dirty_stays:
  fixes f d x :: flags
  assumes "d \<noteq> 0"
  shows "(f OR d) AND (d OR x) \<noteq> 0"
proof -
  from assms obtain n where "bit d n"
    by (auto simp: bit_eq_iff)
  then have set: "bit ((f OR d) AND (d OR x)) n"
    by (simp add: bit_simps)
  show ?thesis
  proof
    assume "(f OR d) AND (d OR x) = 0"
    with set show False by simp
  qed
qed

text \<open>
  C4. \<^verbatim>\<open>Component.invalidate()\<close> on a component whose flags have a bit of \<open>DIRTY\<close> or
  of \<open>DISPOSED\<close> returns with the store unchanged: no state changes and nothing is
  registered. With \<open>DIRTY\<close> a constant that is not 0, a call that returns leaves the
  component in that state, so a second call right after it changes nothing: two calls are
  one. On a component that was neither dirty nor disposed the one call sets \<open>DIRTY\<close>
  and appends the component to the next-frame queue, once.
\<close>

theorem invalidate_collapses:
  "(c_flags (components w c) AND (DIRTY E OR DISPOSED E) \<noteq> 0 \<longrightarrow>
      Component_invalidate E c w = Done w) \<and>
   (DIRTY E \<noteq> 0 \<longrightarrow>
      (\<forall>w1. Component_invalidate E c w = Done w1 \<longrightarrow>
         Component_invalidate E c w1 = Done w1 \<and>
         (c_flags (components w c) AND (DIRTY E OR DISPOSED E) = 0 \<longrightarrow>
            c_flags (components w1 c) = c_flags (components w c) OR DIRTY E \<and>
            nextFrame w1 = nextFrame w @ [c])))"
proof (intro conjI impI allI)
  assume "c_flags (components w c) AND (DIRTY E OR DISPOSED E) \<noteq> 0"
  then show "Component_invalidate E c w = Done w"
    by (simp add: Component_invalidate_def)
next
  fix w1
  assume dirty: "DIRTY E \<noteq> 0" and first: "Component_invalidate E c w = Done w1"
  let ?f = "c_flags (components w c)"
  let ?w0 = "set_c_flags c (?f OR DIRTY E) w"
  let ?r = "cancel_set E (c_transientSubscriptions (components ?w0 c)) ?w0"
  have fresh: "c_flags (components w1 c) = ?f OR DIRTY E \<and> nextFrame w1 = nextFrame w @ [c]"
    if clean: "?f AND (DIRTY E OR DISPOSED E) = 0"
  proof (cases ?r)
    case (Raised e w')
    with clean first show ?thesis
      by (simp add: Component_invalidate_def Component_cancelTransientSubscriptions_def)
  next
    case (Done w')
    from cancel_set_components [of E "c_transientSubscriptions (components ?w0 c)" ?w0]
      cancel_set_nextFrame [of E "c_transientSubscriptions (components ?w0 c)" ?w0] Done
    have "components w' = components ?w0" and "nextFrame w' = nextFrame ?w0"
      by simp_all
    with clean first Done show ?thesis
      by (auto simp: Component_invalidate_def Component_cancelTransientSubscriptions_def
            scheduler_nextFrame_updateComponent_def set_c_transientSubscriptions_def
            set_c_flags_def)
  qed
  show "Component_invalidate E c w1 = Done w1"
  proof (cases "?f AND (DIRTY E OR DISPOSED E) = 0")
    case False
    with first have "w1 = w"
      by (simp add: Component_invalidate_def)
    with False show ?thesis
      by (simp add: Component_invalidate_def)
  next
    case True
    with fresh have "c_flags (components w1 c) = ?f OR DIRTY E" by simp
    with dirty_stays [OF dirty] show ?thesis
      by (simp add: Component_invalidate_def)
  qed
  assume "?f AND (DIRTY E OR DISPOSED E) = 0"
  with fresh show "c_flags (components w1 c) = ?f OR DIRTY E"
    and "nextFrame w1 = nextFrame w @ [c]"
    by simp_all
qed

text \<open>The rendered component of \<open>rendered_world\<close> is invalidated twice: it is dirty and
  registered once. The component of \<open>ready_world\<close> is dirty from the start, and a call
  changes nothing.\<close>

theorem invalidate_collapses_witness:
  "DIRTY rendering_env \<noteq> 0 \<and>
   c_flags (components ready_world 0) AND (DIRTY rendering_env OR DISPOSED rendering_env) \<noteq> 0 \<and>
   Component_invalidate rendering_env 0 ready_world = Done ready_world \<and>
   c_flags (components rendered_world 0) AND (DIRTY rendering_env OR DISPOSED rendering_env) = 0 \<and>
   is_Done (Component_invalidate rendering_env 0 rendered_world) \<and>
   Component_invalidate rendering_env 0
     (world_of (Component_invalidate rendering_env 0 rendered_world)) =
     Component_invalidate rendering_env 0 rendered_world \<and>
   c_flags (components (world_of (Component_invalidate rendering_env 0 rendered_world)) 0) = 10 \<and>
   nextFrame (world_of (Component_invalidate rendering_env 0 rendered_world)) = [0]"
proof -
  note env = rendering_env_fields
  have returns: "is_Done (Component_invalidate rendering_env 0 rendered_world)"
    by (simp add: Component_invalidate_def Component_cancelTransientSubscriptions_def
          cancel_set_def Invalidator_removeSubscription_def remove_from_def set_c_flags_def
          TRANSIENT_def env rendered_world_facts)
  then obtain w1 where w1: "Component_invalidate rendering_env 0 rendered_world = Done w1"
    by (cases "Component_invalidate rendering_env 0 rendered_world") simp_all
  from invalidate_collapses [of ready_world 0 rendering_env]
    invalidate_collapses [of rendered_world 0 rendering_env] w1
  show ?thesis
    by (simp add: env ready_world_facts rendered_world_facts)
qed

section \<open>Disposing a component\<close>

lemma disposing_env_fields:
  "DEBUG disposing_env" "ATTACHED disposing_env = 2" "MOUNTING disposing_env = 4"
  "DIRTY disposing_env = 8" "DISPOSED disposing_env = 1" "UPDATE_EACH_FRAME disposing_env = 16"
  "IN_UPDATE_QUEUE disposing_env = 32" "SHOULD_UPDATE_FLAGS disposing_env = 10"
  by (simp_all add: disposing_env_def rendering_env_def silent_env_def)

lemma mounted_world_facts:
  "c_flags (components mounted_world 0) = 2"
  "c_root (components mounted_world 0) = Some 0"
  "c_descriptor (components mounted_world 0) = 0"
  "c_subscriptions (components mounted_world 0) = Single 1"
  "c_transientSubscriptions (components mounted_world 0) = Single 0"
  "inv_subscriptions (invalidators mounted_world 0) = Single 1"
  "inv_transientSubscriptions (invalidators mounted_world 0) = Single 0"
  "d_disposed (descriptors mounted_world 0) = Some 1"
  "vnodes mounted_world 0 = \<lparr>v_cref = Some 0, v_ref = Some (createElement ''div'')\<rparr>"
  "sub_flags (subscriptions mounted_world 0) = 3"
  "sub_flags (subscriptions mounted_world 1) = 1"
  "sub_invalidator (subscriptions mounted_world 0) = 0"
  "sub_invalidator (subscriptions mounted_world 1) = 0"
  by (simp_all add: mounted_world_def disposing_env_def example_defs op_defs Component_syncVRoot_def)

lemma flags_cleared:
  fixes f a :: flags
  shows "(f AND NOT a) AND a = 0"
  by (simp add: bit_eq_iff bit_simps)

lemma flags_kept:
  fixes f d a :: flags
  assumes "d AND a = 0"
  shows "((f OR d) AND NOT a) AND d = d"
  using assms by (auto simp: bit_eq_iff bit_simps)

text \<open>
  What \<^verbatim>\<open>dispose()\<close> does to the component itself. In a debug build \<^verbatim>\<open>dispose()\<close>
  on a component whose flags have a \<open>DISPOSED\<close> bit throws and leaves the store as it was.
  Otherwise it first writes the flags: \<open>DISPOSED\<close> set, then \<open>ATTACHED\<close> and
  \<open>UPDATE_EACH_FRAME\<close> cleared. It then calls \<^verbatim>\<open>cancelSubscriptions()\<close> and
  \<^verbatim>\<open>cancelTransientSubscriptions()\<close>; when both return, the component differs from what
  it was in three fields only: the new flags, and both of its own sets \<^verbatim>\<open>null\<close>. From
  that store on it disposes the root, when there is one, and then calls the descriptor's
  \<^verbatim>\<open>disposed\<close> hook, when there is one. (That the flags keep \<open>DISPOSED\<close> set needs the
  constant to share no bit with the two that are cleared.) What the two calls leave in the
  sets of the invalidators is another matter, taken up further down.
\<close>

lemma dispose_steps:
  "(DEBUG E \<and> c_flags (components w c) AND DISPOSED E \<noteq> 0 \<longrightarrow>
      Component_dispose E c w =
        Raised (Thrown ''Failed to dispose Component: component is already disposed'') w) \<and>
   (\<not> (DEBUG E \<and> c_flags (components w c) AND DISPOSED E \<noteq> 0) \<longrightarrow>
      (\<forall>w1 w2.
         Component_cancelSubscriptions E c
           (set_c_flags c ((c_flags (components w c) OR DISPOSED E) AND
                           NOT (ATTACHED E OR UPDATE_EACH_FRAME E)) w) = Done w1 \<longrightarrow>
         Component_cancelTransientSubscriptions E c w1 = Done w2 \<longrightarrow>
           components w2 = (components w)(c := (components w c)
              \<lparr>c_flags := (c_flags (components w c) OR DISPOSED E) AND
                           NOT (ATTACHED E OR UPDATE_EACH_FRAME E),
               c_subscriptions := Null, c_transientSubscriptions := Null\<rparr>) \<and>
           c_flags (components w2 c) AND (ATTACHED E OR UPDATE_EACH_FRAME E) = 0 \<and>
           (DISPOSED E AND (ATTACHED E OR UPDATE_EACH_FRAME E) = 0 \<longrightarrow>
              c_flags (components w2 c) AND DISPOSED E = DISPOSED E) \<and>
           Component_dispose E c w =
             and_then (case c_root (components w c) of
                         None \<Rightarrow> Done w2
                       | Some root \<Rightarrow> vnode_dispose E root w2)
               (\<lambda>w3. case d_disposed (descriptors w3 (c_descriptor (components w3 c))) of
                       None \<Rightarrow> Done w3
                     | Some f \<Rightarrow> hook E f c w3)))"
proof (intro conjI impI allI)
  assume "DEBUG E \<and> c_flags (components w c) AND DISPOSED E \<noteq> 0"
  then show "Component_dispose E c w =
      Raised (Thrown ''Failed to dispose Component: component is already disposed'') w"
    by (simp add: Component_dispose_def)
next
  fix w1 w2
  let ?F = "(c_flags (components w c) OR DISPOSED E) AND NOT (ATTACHED E OR UPDATE_EACH_FRAME E)"
  let ?w0 = "set_c_flags c ?F w"
  assume fresh: "\<not> (DEBUG E \<and> c_flags (components w c) AND DISPOSED E \<noteq> 0)"
    and durable: "Component_cancelSubscriptions E c ?w0 = Done w1"
    and transient: "Component_cancelTransientSubscriptions E c w1 = Done w2"
  from durable obtain v1 where v1: "cancel_set E (c_subscriptions (components ?w0 c)) ?w0 = Done v1"
    and w1: "w1 = set_c_subscriptions c Null v1"
    by (cases "cancel_set E (c_subscriptions (components ?w0 c)) ?w0")
       (simp_all add: Component_cancelSubscriptions_def)
  from cancel_set_components [of E "c_subscriptions (components ?w0 c)" ?w0] v1
  have c1: "components v1 = components ?w0" by simp
  from transient obtain v2
    where v2: "cancel_set E (c_transientSubscriptions (components w1 c)) w1 = Done v2"
    and w2: "w2 = set_c_transientSubscriptions c Null v2"
    by (cases "cancel_set E (c_transientSubscriptions (components w1 c)) w1")
       (simp_all add: Component_cancelTransientSubscriptions_def)
  from cancel_set_components [of E "c_transientSubscriptions (components w1 c)" w1] v2
  have c2: "components v2 = components w1" by simp
  show comps: "components w2 = (components w)(c := (components w c)
      \<lparr>c_flags := ?F, c_subscriptions := Null, c_transientSubscriptions := Null\<rparr>)"
    by (simp add: w2 c2 w1 c1 set_c_flags_def set_c_subscriptions_def
          set_c_transientSubscriptions_def)
  have F: "c_flags (components w2 c) = ?F"
    by (simp add: comps)
  show "c_flags (components w2 c) AND (ATTACHED E OR UPDATE_EACH_FRAME E) = 0"
    unfolding F by (rule flags_cleared)
  show "c_flags (components w2 c) AND DISPOSED E = DISPOSED E"
    if "DISPOSED E AND (ATTACHED E OR UPDATE_EACH_FRAME E) = 0"
    unfolding F using that by (rule flags_kept)
  have root: "c_root (components w2 c) = c_root (components w c)"
    by (simp add: comps)
  from fresh durable transient show "Component_dispose E c w =
      and_then (case c_root (components w c) of
                  None \<Rightarrow> Done w2
                | Some root \<Rightarrow> vnode_dispose E root w2)
        (\<lambda>w3. case d_disposed (descriptors w3 (c_descriptor (components w3 c))) of
                None \<Rightarrow> Done w3
              | Some f \<Rightarrow> hook E f c w3)"
    by (auto simp: Component_dispose_def Let_def set_c_flags_def root)
qed

lemma disposed_world_facts:
  "is_Done (Component_cancelSubscriptions disposing_env 0
     (set_c_flags 0 ((c_flags (components mounted_world 0) OR DISPOSED disposing_env) AND
        NOT (ATTACHED disposing_env OR UPDATE_EACH_FRAME disposing_env)) mounted_world))"
  "is_Done (Component_cancelTransientSubscriptions disposing_env 0
     (world_of (Component_cancelSubscriptions disposing_env 0
     (set_c_flags 0 ((c_flags (components mounted_world 0) OR DISPOSED disposing_env) AND
        NOT (ATTACHED disposing_env OR UPDATE_EACH_FRAME disposing_env)) mounted_world))))"
  "is_Done (Component_dispose disposing_env 0 mounted_world)"
  "c_flags (components disposed_world 0) = 1"
  "c_subscriptions (components disposed_world 0) = Null"
  "c_transientSubscriptions (components disposed_world 0) = Null"
  "inv_subscriptions (invalidators disposed_world 0) = Null"
  "inv_transientSubscriptions (invalidators disposed_world 0) = Null"
  "vnodes disposed_world 0 = \<lparr>v_cref = None, v_ref = None\<rparr>"
  by (simp_all add: disposed_world_def Component_dispose_def Component_cancelSubscriptions_def
        mounted_world_def disposing_env_def example_defs op_defs Component_syncVRoot_def)

text \<open>The component of \<open>mounted_world\<close> has a durable and a transient subscription, a
  root and a \<^verbatim>\<open>disposed\<close> hook. Disposing it returns; disposing it again throws.\<close>

lemma dispose_steps_example:
  "\<not> (DEBUG disposing_env \<and>
      c_flags (components mounted_world 0) AND DISPOSED disposing_env \<noteq> 0) \<and>
   c_subscriptions (components mounted_world 0) = Single 1 \<and>
   c_transientSubscriptions (components mounted_world 0) = Single 0 \<and>
   c_root (components mounted_world 0) = Some 0 \<and>
   d_disposed (descriptors mounted_world 0) = Some 1 \<and>
   Component_dispose disposing_env 0 mounted_world = Done disposed_world \<and>
   c_flags (components disposed_world 0) = DISPOSED disposing_env \<and>
   c_subscriptions (components disposed_world 0) = Null \<and>
   c_transientSubscriptions (components disposed_world 0) = Null \<and>
   vnodes disposed_world 0 = \<lparr>v_cref = None, v_ref = None\<rparr> \<and>
   DEBUG disposing_env \<and>
   c_flags (components disposed_world 0) AND DISPOSED disposing_env \<noteq> 0 \<and>
   Component_dispose disposing_env 0 disposed_world =
     Raised (Thrown ''Failed to dispose Component: component is already disposed'')
       disposed_world"
proof -
  let ?F = "(c_flags (components mounted_world 0) OR DISPOSED disposing_env) AND
        NOT (ATTACHED disposing_env OR UPDATE_EACH_FRAME disposing_env)"
  let ?w1 = "world_of (Component_cancelSubscriptions disposing_env 0
               (set_c_flags 0 ?F mounted_world))"
  let ?w2 = "world_of (Component_cancelTransientSubscriptions disposing_env 0 ?w1)"
  have fresh: "\<not> (DEBUG disposing_env \<and>
      c_flags (components mounted_world 0) AND DISPOSED disposing_env \<noteq> 0)"
    by (simp add: mounted_world_facts disposing_env_fields)
  have durable: "Component_cancelSubscriptions disposing_env 0
      (set_c_flags 0 ?F mounted_world) = Done ?w1"
    by (rule Done_world_of) (rule disposed_world_facts)
  have transient: "Component_cancelTransientSubscriptions disposing_env 0 ?w1 = Done ?w2"
    by (rule Done_world_of) (rule disposed_world_facts)
  from dispose_steps [of disposing_env mounted_world 0] fresh durable transient
  have sets: "components ?w2 = (components mounted_world)(0 := (components mounted_world 0)
      \<lparr>c_flags := ?F, c_subscriptions := Null, c_transientSubscriptions := Null\<rparr>)"
    by blast
  have first: "Component_dispose disposing_env 0 mounted_world = Done disposed_world"
    unfolding disposed_world_def by (rule Done_world_of) (rule disposed_world_facts)
  have again: "DEBUG disposing_env \<and>
      c_flags (components disposed_world 0) AND DISPOSED disposing_env \<noteq> 0"
    by (simp add: disposed_world_facts disposing_env_fields)
  with dispose_steps [of disposing_env disposed_world 0]
  have second: "Component_dispose disposing_env 0 disposed_world =
     Raised (Thrown ''Failed to dispose Component: component is already disposed'')
       disposed_world"
    by blast
  from fresh first again second sets show ?thesis
    by (simp add: mounted_world_facts disposed_world_facts disposing_env_fields)
qed

section \<open>The modification time of an invalidator\<close>

lemma mtime_kept_refl: "mtime_kept w w"
  by (simp add: mtime_kept_def)

lemma mtime_kept_trans: "mtime_kept w w1 \<Longrightarrow> mtime_kept w1 w2 \<Longrightarrow> mtime_kept w w2"
proof -
  assume a: "mtime_kept w w1" and b: "mtime_kept w1 w2"
  have "inv_mtime (invalidators w i) \<le> inv_mtime (invalidators w2 i)" if "i < next_iid w" for i
  proof -
    from a that have "inv_mtime (invalidators w i) \<le> inv_mtime (invalidators w1 i)"
      and "i < next_iid w1"
      by (simp_all add: mtime_kept_def)
    moreover from b \<open>i < next_iid w1\<close>
    have "inv_mtime (invalidators w1 i) \<le> inv_mtime (invalidators w2 i)"
      by (simp add: mtime_kept_def)
    ultimately show ?thesis by simp
  qed
  moreover from a b have "next_iid w \<le> next_iid w2"
    by (simp add: mtime_kept_def)
  ultimately show ?thesis
    by (simp add: mtime_kept_def)
qed

lemma same_objects_mtime_kept: "same_objects w w' \<Longrightarrow> mtime_kept w w'"
  by (simp add: same_objects_def mtime_kept_def)

lemma mtime_kept_and_then:
  assumes "mtime_kept w (world_of r)"
    and "\<And>w1. r = Done w1 \<Longrightarrow> mtime_kept w1 (world_of (k w1))"
  shows "mtime_kept w (world_of (and_then r k))"
  using assms by (cases r) (auto intro: mtime_kept_trans)

lemma mtime_kept_same:
  "next_iid w' = next_iid w \<Longrightarrow>
   (\<And>i. inv_mtime (invalidators w' i) = inv_mtime (invalidators w i)) \<Longrightarrow> mtime_kept w w'"
  by (simp add: mtime_kept_def)

lemma Invalidator_new_kept: "mtime_kept w (snd (Invalidator_new w))"
  by (simp add: mtime_kept_def Invalidator_new_def)

lemma InvalidatorSubscription_new_kept: "mtime_kept w (snd (InvalidatorSubscription_new f i x w))"
  by (simp add: mtime_kept_def InvalidatorSubscription_new_def)

lemma CDescriptor_new_kept: "mtime_kept w (snd (CDescriptor_new name opt_flags w))"
  by (simp add: mtime_kept_def CDescriptor_new_def)

lemma Invalidator_addSubscription_kept: "mtime_kept w (Invalidator_addSubscription i s w)"
  by (rule mtime_kept_same)
     (auto simp: Invalidator_addSubscription_def add_to_def split: subscriptions.splits)

lemma Component_subscribe_kept: "mtime_kept w (Component_subscribe c i w)"
  by (rule mtime_kept_same)
     (auto simp: Component_subscribe_def InvalidatorSubscription_new_def
        Invalidator_addSubscription_def add_to_def set_c_subscriptions_def Let_def
        split: subscriptions.splits)

lemma Component_transientSubscribe_kept: "mtime_kept w (Component_transientSubscribe c i w)"
  by (rule mtime_kept_same)
     (auto simp: Component_transientSubscribe_def InvalidatorSubscription_new_def
        Invalidator_addSubscription_def add_to_def set_c_transientSubscriptions_def Let_def
        split: subscriptions.splits)

lemma Invalidator_removeSubscription_kept:
  "mtime_kept w (world_of (Invalidator_removeSubscription E i s w))"
  by (rule same_objects_mtime_kept) (rule Invalidator_removeSubscription_same)

lemma Component_removeSubscription_kept:
  "mtime_kept w (world_of (Component_removeSubscription E c s w))"
  by (rule mtime_kept_same)
     (simp_all add: Component_removeSubscription_def set_c_subscriptions_def
        set_c_transientSubscriptions_def split: sum.splits prod.splits)

lemma cancel_set_kept: "mtime_kept w (world_of (cancel_set E subs w))"
  by (rule same_objects_mtime_kept) (rule cancel_set_same)

lemma Component_cancelSubscriptions_kept:
  "mtime_kept w (world_of (Component_cancelSubscriptions E c w))"
  unfolding Component_cancelSubscriptions_def
  by (rule mtime_kept_and_then, rule cancel_set_kept)
     (simp add: mtime_kept_def set_c_subscriptions_def)

lemma Component_cancelTransientSubscriptions_kept:
  "mtime_kept w (world_of (Component_cancelTransientSubscriptions E c w))"
  unfolding Component_cancelTransientSubscriptions_def
  by (rule mtime_kept_and_then, rule cancel_set_kept)
     (simp add: mtime_kept_def set_c_transientSubscriptions_def)

lemma set_c_flags_kept: "mtime_kept w (set_c_flags c f w)"
  by (simp add: mtime_kept_def set_c_flags_def)

lemma Component_invalidate_kept: "mtime_kept w (world_of (Component_invalidate E c w))"
proof (cases "c_flags (components w c) AND (DIRTY E OR DISPOSED E) = 0")
  case False
  then show ?thesis
    by (simp add: Component_invalidate_def mtime_kept_refl)
next
  case True
  let ?w0 = "set_c_flags c (c_flags (components w c) OR DIRTY E) w"
  have "mtime_kept ?w0 (world_of (and_then (Component_cancelTransientSubscriptions E c ?w0)
          (\<lambda>w1. Done (scheduler_nextFrame_updateComponent c w1))))"
    by (rule mtime_kept_and_then, rule Component_cancelTransientSubscriptions_kept)
       (simp add: mtime_kept_def scheduler_nextFrame_updateComponent_def)
  with set_c_flags_kept [of w c] True show ?thesis
    by (auto simp: Component_invalidate_def intro: mtime_kept_trans)
qed

lemma Component_startUpdateEachFrame_kept: "mtime_kept w (Component_startUpdateEachFrame E c w)"
  by (simp add: mtime_kept_def Component_startUpdateEachFrame_def set_c_flags_def
        scheduler_startUpdateComponentEachFrame_def Let_def)

lemma Component_stopUpdateEachFrame_kept: "mtime_kept w (Component_stopUpdateEachFrame E c w)"
  by (simp add: mtime_kept_def Component_stopUpdateEachFrame_def set_c_flags_def)

lemma InvalidatorSubscription_invalidate_kept:
  assumes "outside_keeps_mtime E"
  shows "mtime_kept w (world_of (InvalidatorSubscription_invalidate E s w))"
  using assms
  by (auto simp: InvalidatorSubscription_invalidate_def outside_keeps_mtime_def
        Component_invalidate_kept mtime_kept_refl split: subscriber.splits)

lemma InvalidatorSubscription_cancel_kept:
  "mtime_kept w (world_of (InvalidatorSubscription_cancel E s w))"
proof (cases "DEBUG E \<and> sub_isCanceled (subscriptions w s)")
  case True
  then show ?thesis
    by (simp add: InvalidatorSubscription_cancel_def mtime_kept_refl)
next
  case False
  let ?w1 = "if DEBUG E
             then w\<lparr>subscriptions := (subscriptions w)(s :=
                      (subscriptions w s)\<lparr>sub_isCanceled := True\<rparr>)\<rparr>
             else w"
  have first: "mtime_kept w ?w1"
    by (simp add: mtime_kept_def)
  have "mtime_kept ?w1 (world_of (and_then
          (Invalidator_removeSubscription E (sub_invalidator (subscriptions ?w1 s)) s ?w1)
          (\<lambda>w2. if sub_flags (subscriptions w2 s) AND COMPONENT \<noteq> 0
                 then (case sub_subscriber (subscriptions w2 s) of
                         ComponentRef c \<Rightarrow> Component_removeSubscription E c s w2
                       | Function f \<Rightarrow> Raised TypeError w2)
                 else Done w2)))"
    by (rule mtime_kept_and_then, rule Invalidator_removeSubscription_kept)
       (auto simp: Component_removeSubscription_kept mtime_kept_refl split: subscriber.splits)
  with first have "mtime_kept w (world_of (and_then
          (Invalidator_removeSubscription E (sub_invalidator (subscriptions ?w1 s)) s ?w1)
          (\<lambda>w2. if sub_flags (subscriptions w2 s) AND COMPONENT \<noteq> 0
                 then (case sub_subscriber (subscriptions w2 s) of
                         ComponentRef c \<Rightarrow> Component_removeSubscription E c s w2
                       | Function f \<Rightarrow> Raised TypeError w2)
                 else Done w2)))"
    by (rule mtime_kept_trans)
  with False show ?thesis
    unfolding InvalidatorSubscription_cancel_def Let_def by auto
qed

lemma notify_each_kept:
  assumes "notify_each E a i w = Some r" and "outside_keeps_mtime E"
  shows "mtime_kept w (world_of r)"
  using assms
proof (induction rule: notify_each.raw_induct [rotated, consumes 1])
  case (1 loop E a i w r)
  show ?case
  proof (cases "i < length (arrays w a)")
    case False
    with "1.hyps" have "r = Done w" by simp
    then show ?thesis
      by (simp add: mtime_kept_refl)
  next
    case True
    from "1.prems" have step:
      "mtime_kept w (world_of (InvalidatorSubscription_invalidate E (arrays w a ! i) w))"
      by (rule InvalidatorSubscription_invalidate_kept)
    show ?thesis
    proof (cases "InvalidatorSubscription_invalidate E (arrays w a ! i) w")
      case (Raised e w')
      with True "1.hyps" step show ?thesis by auto
    next
      case (Done w')
      with True "1.hyps" have "loop E a (Suc i) w' = Some r" by simp
      then have "mtime_kept w' (world_of r)"
        using "1.prems" by (rule "1.IH")
      moreover from step Done have "mtime_kept w w'" by simp
      ultimately show ?thesis
        by (rule mtime_kept_trans [rotated])
    qed
  qed
qed

lemma notify_set_kept:
  assumes "notify_set E subs w = Some r" and "outside_keeps_mtime E"
  shows "mtime_kept w (world_of r)"
  using assms
  by (cases subs)
     (auto simp: notify_set_def mtime_kept_refl InvalidatorSubscription_invalidate_kept
        notify_each_kept)

lemma Invalidator_invalidate_kept:
  assumes run: "Invalidator_invalidate E i w = Some r" and outside: "outside_keeps_mtime E"
  shows "mtime_kept w (world_of r)"
proof (cases "inv_mtime (invalidators w i) < clock w")
  case False
  with run show ?thesis
    by (auto simp: Invalidator_invalidate_def mtime_kept_refl)
next
  case True
  let ?w1 = "w\<lparr>invalidators := (invalidators w)(i :=
               (invalidators w i)\<lparr>inv_mtime := clock w\<rparr>)\<rparr>"
  from True have stamp: "mtime_kept w ?w1"
    by (simp add: mtime_kept_def)
  show ?thesis
  proof (cases "notify_set E (inv_subscriptions (invalidators ?w1 i)) ?w1")
    case None
    with True run show ?thesis
      by (simp add: Invalidator_invalidate_def Let_def)
  next
    case (Some r1)
    then have durable: "mtime_kept ?w1 (world_of r1)"
      using outside by (rule notify_set_kept)
    show ?thesis
    proof (cases r1)
      case (Raised e w2)
      with True run Some have "r = Raised e w2"
        by (simp add: Invalidator_invalidate_def Let_def)
      with durable Raised stamp show ?thesis
        by (auto intro: mtime_kept_trans)
    next
      case (Done w2)
      with durable stamp have w2: "mtime_kept w w2"
        by (auto intro: mtime_kept_trans)
      show ?thesis
      proof (cases "inv_transientSubscriptions (invalidators w2 i) = Null")
        case True
        with \<open>inv_mtime (invalidators w i) < clock w\<close> run Some Done have "r = Done w2"
          by (simp add: Invalidator_invalidate_def Let_def)
        with w2 show ?thesis by simp
      next
        case False
        let ?w3 = "set_inv_transientSubscriptions i Null w2"
        from False \<open>inv_mtime (invalidators w i) < clock w\<close> run Some Done
        have "notify_set E (inv_transientSubscriptions (invalidators w2 i)) ?w3 = Some r"
          by (simp add: Invalidator_invalidate_def Let_def split: subscriptions.splits)
        then have "mtime_kept ?w3 (world_of r)"
          using outside by (rule notify_set_kept)
        moreover have "mtime_kept w2 ?w3"
          by (simp add: mtime_kept_def set_inv_transientSubscriptions_def)
        ultimately show ?thesis
          using w2 by (blast intro: mtime_kept_trans)
      qed
    qed
  qed
qed

lemma Component_new_kept: "mtime_kept w (snd (Component_new f d parent el w))"
  by (simp add: mtime_kept_def Component_new_def)

lemma init_kept:
  assumes "outside_keeps_mtime E"
  shows "mtime_kept w (world_of (case d_init (descriptors w d) of
                                   None \<Rightarrow> Done w | Some f \<Rightarrow> hook E f c w))"
  using assms by (auto simp: outside_keeps_mtime_def mtime_kept_refl split: option.splits)

lemma Component_create_kept:
  assumes "outside_keeps_mtime E"
  shows "mtime_kept w (world_of (snd (Component_create E d context w)))"
proof -
  obtain c w1 where new: "Component_new (SHOULD_UPDATE_FLAGS E) d context
      (if d_flags (descriptors w d) AND SVG = 0
       then createElement (d_tag (descriptors w d))
       else createElementNS (HtmlNamespace_SVG E) (d_tag (descriptors w d))) w = (c, w1)"
    by (cases "Component_new (SHOULD_UPDATE_FLAGS E) d context
      (if d_flags (descriptors w d) AND SVG = 0
       then createElement (d_tag (descriptors w d))
       else createElementNS (HtmlNamespace_SVG E) (d_tag (descriptors w d))) w")
  from Component_new_kept [of w "SHOULD_UPDATE_FLAGS E" d "context"] new
  have "mtime_kept w w1"
    by (metis snd_conv)
  moreover from assms
  have "mtime_kept w1 (world_of (case d_init (descriptors w1 d) of
                                   None \<Rightarrow> Done w1 | Some f \<Rightarrow> hook E f c w1))"
    by (rule init_kept)
  ultimately show ?thesis
    using new by (auto simp: Component_create_def Let_def intro: mtime_kept_trans)
qed

lemma Component_mount_kept:
  assumes "outside_keeps_mtime E"
  shows "mtime_kept w (world_of (snd (Component_mount E d context el w)))"
proof -
  obtain c w1
    where new: "Component_new (SHOULD_UPDATE_FLAGS E OR MOUNTING E) d context el w = (c, w1)"
    by (cases "Component_new (SHOULD_UPDATE_FLAGS E OR MOUNTING E) d context el w")
  from Component_new_kept [of w "SHOULD_UPDATE_FLAGS E OR MOUNTING E" d "context" el] new
  have "mtime_kept w w1"
    by simp
  moreover from assms
  have "mtime_kept w1 (world_of (case d_init (descriptors w1 d) of
                                   None \<Rightarrow> Done w1 | Some f \<Rightarrow> hook E f c w1))"
    by (rule init_kept)
  ultimately show ?thesis
    using new by (auto simp: Component_mount_def intro: mtime_kept_trans)
qed

lemma Component_update_kept:
  assumes "outside_keeps_mtime E"
  shows "mtime_kept w (world_of (Component_update E c w))"
proof (cases "c_flags (components w c) AND SHOULD_UPDATE_FLAGS E = SHOULD_UPDATE_FLAGS E")
  case False
  then show ?thesis
    by (simp add: Component_update_def mtime_kept_refl)
next
  case True
  show ?thesis
  proof (cases "d_update (descriptors w (c_descriptor (components w c)))")
    case None
    with True show ?thesis
      by (simp add: Component_update_def mtime_kept_refl)
  next
    case (Some f)
    have "mtime_kept w (world_of (and_then (hook E f c w)
            (\<lambda>w1. Done (w1\<lparr>components := (components w1)(c :=
                      (components w1 c)\<lparr>c_mtime := clock w1,
                         c_flags := c_flags (components w1 c) AND NOT (DIRTY E)\<rparr>)\<rparr>))))"
    proof (rule mtime_kept_and_then)
      from assms show "mtime_kept w (world_of (hook E f c w))"
        by (simp add: outside_keeps_mtime_def)
    qed (simp add: mtime_kept_def)
    with True Some show ?thesis
      by (simp add: Component_update_def)
  qed
qed

lemma Component_syncVRoot_kept:
  assumes outside: "outside_keeps_mtime E"
  shows "mtime_kept w (world_of (Component_syncVRoot E c newRoot w))"
  unfolding Component_syncVRoot_def
proof (rule mtime_kept_and_then)
  show "mtime_kept w (world_of
      (case c_root (components w c) of
         None \<Rightarrow>
           (let w1 = w\<lparr>vnodes := (vnodes w)(newRoot := (vnodes w newRoot)\<lparr>v_cref := Some c\<rparr>)\<rparr>
            in if c_flags (components w1 c) AND MOUNTING E \<noteq> 0
               then and_then (vnode_mount E newRoot (c_element (components w1 c)) c w1)
                      (\<lambda>w2. Done (set_c_flags c
                               (c_flags (components w2 c) AND NOT (MOUNTING E)) w2))
               else vnode_render E newRoot c
                      (w1\<lparr>vnodes := (vnodes w1)(newRoot :=
                             (vnodes w1 newRoot)\<lparr>v_ref := Some (c_element (components w1 c))\<rparr>)\<rparr>))
       | Some root \<Rightarrow> vnode_sync E root newRoot c w))"
  proof (cases "c_root (components w c)")
    case (Some root)
    with outside show ?thesis
      by (simp add: outside_keeps_mtime_def)
  next
    case None
    let ?w1 = "w\<lparr>vnodes := (vnodes w)(newRoot := (vnodes w newRoot)\<lparr>v_cref := Some c\<rparr>)\<rparr>"
    let ?w2 = "?w1\<lparr>vnodes := (vnodes ?w1)(newRoot :=
                 (vnodes ?w1 newRoot)\<lparr>v_ref := Some (c_element (components ?w1 c))\<rparr>)\<rparr>"
    have w1: "mtime_kept w ?w1" and w2: "mtime_kept w ?w2"
      by (simp_all add: mtime_kept_def)
    have mount: "mtime_kept ?w1 (world_of
        (and_then (vnode_mount E newRoot (c_element (components ?w1 c)) c ?w1)
           (\<lambda>w2. Done (set_c_flags c (c_flags (components w2 c) AND NOT (MOUNTING E)) w2))))"
    proof (rule mtime_kept_and_then)
      from outside
      show "mtime_kept ?w1 (world_of (vnode_mount E newRoot (c_element (components ?w1 c)) c ?w1))"
        unfolding outside_keeps_mtime_def by blast
    qed (simp add: set_c_flags_kept)
    from outside have render: "mtime_kept ?w2 (world_of (vnode_render E newRoot c ?w2))"
      unfolding outside_keeps_mtime_def by blast
    show ?thesis
    proof (cases "c_flags (components ?w1 c) AND MOUNTING E \<noteq> 0")
      case True
      from mtime_kept_trans [OF w1 mount] None True show ?thesis
        by (simp add: Let_def)
    next
      case False
      from mtime_kept_trans [OF w2 render] None False show ?thesis
        by (simp add: Let_def)
    qed
  qed
qed (simp add: mtime_kept_def)

lemma Component_dispose_kept:
  assumes outside: "outside_keeps_mtime E"
  shows "mtime_kept w (world_of (Component_dispose E c w))"
proof (cases "DEBUG E \<and> c_flags (components w c) AND DISPOSED E \<noteq> 0")
  case True
  then show ?thesis
    by (simp add: Component_dispose_def mtime_kept_refl)
next
  case False
  let ?w1 = "set_c_flags c (c_flags (components w c) OR DISPOSED E) w"
  let ?w2 = "set_c_flags c
               (c_flags (components ?w1 c) AND NOT (ATTACHED E OR UPDATE_EACH_FRAME E)) ?w1"
  let ?rest = "and_then (Component_cancelSubscriptions E c ?w2)
      (\<lambda>w3. and_then (Component_cancelTransientSubscriptions E c w3)
      (\<lambda>w4. and_then (case c_root (components w4 c) of
                        None \<Rightarrow> Done w4
                      | Some root \<Rightarrow> vnode_dispose E root w4)
      (\<lambda>w5. case d_disposed (descriptors w5 (c_descriptor (components w5 c))) of
              None \<Rightarrow> Done w5
            | Some f \<Rightarrow> hook E f c w5)))"
  have "mtime_kept w ?w2"
    by (simp add: mtime_kept_def set_c_flags_def)
  moreover have "mtime_kept ?w2 (world_of ?rest)"
  proof (intro mtime_kept_and_then)
    show "mtime_kept ?w2 (world_of (Component_cancelSubscriptions E c ?w2))"
      by (rule Component_cancelSubscriptions_kept)
    show "mtime_kept w3 (world_of (Component_cancelTransientSubscriptions E c w3))" for w3
      by (rule Component_cancelTransientSubscriptions_kept)
    show "mtime_kept w4 (world_of (case c_root (components w4 c) of
                        None \<Rightarrow> Done w4
                      | Some root \<Rightarrow> vnode_dispose E root w4))" for w4
      using outside
      by (auto simp: outside_keeps_mtime_def mtime_kept_refl split: option.splits)
    show "mtime_kept w5 (world_of
        (case d_disposed (descriptors w5 (c_descriptor (components w5 c))) of
              None \<Rightarrow> Done w5
            | Some f \<Rightarrow> hook E f c w5))" for w5
      using outside
      by (auto simp: outside_keeps_mtime_def mtime_kept_refl split: option.splits)
  qed
  ultimately have "mtime_kept w (world_of ?rest)"
    by (rule mtime_kept_trans)
  with False show ?thesis
    unfolding Component_dispose_def Let_def by auto
qed

text \<open>
  C7. The constructor of an invalidator sets \<open>mtime\<close> to the scheduler's clock. No
  constructor or method of the file, whatever its arguments and whether it returns or
  throws, decreases the \<open>mtime\<close> of an invalidator that exists, provided the code it
  calls outside the file does not: \<^verbatim>\<open>invalidate()\<close> is the only method that writes the
  field, and it writes the clock only where the clock is larger. Nothing is assumed about
  the clock.
\<close>

theorem mtime_never_decreases:
  "inv_mtime (invalidators (snd (Invalidator_new w)) (fst (Invalidator_new w))) = clock w \<and>
   (outside_keeps_mtime E \<longrightarrow>
      (\<forall>r. run E op w = Some r \<longrightarrow>
         next_iid w \<le> next_iid (world_of r) \<and>
         (\<forall>i<next_iid w.
            inv_mtime (invalidators w i) \<le> inv_mtime (invalidators (world_of r) i))))"
proof (intro conjI impI allI)
  show "inv_mtime (invalidators (snd (Invalidator_new w)) (fst (Invalidator_new w))) = clock w"
    by (simp add: Invalidator_new_def)
next
  fix r
  assume outside: "outside_keeps_mtime E" and run: "run E op w = Some r"
  have "mtime_kept w (world_of r)"
  proof (cases op)
    case (Op_invalidate i)
    with run outside show ?thesis
      by (auto intro: Invalidator_invalidate_kept)
  qed (use run outside in \<open>auto simp: mtime_kept_refl Invalidator_new_kept
         InvalidatorSubscription_new_kept CDescriptor_new_kept Invalidator_addSubscription_kept
         Component_subscribe_kept Component_transientSubscribe_kept
         Invalidator_removeSubscription_kept Component_removeSubscription_kept
         Component_cancelSubscriptions_kept Component_cancelTransientSubscriptions_kept
         Component_invalidate_kept Component_startUpdateEachFrame_kept
         Component_stopUpdateEachFrame_kept InvalidatorSubscription_invalidate_kept
         InvalidatorSubscription_cancel_kept Component_create_kept Component_mount_kept
         Component_update_kept Component_syncVRoot_kept Component_dispose_kept\<close>)
  then show "next_iid w \<le> next_iid (world_of r)"
    and "\<And>i. i < next_iid w \<Longrightarrow>
           inv_mtime (invalidators w i) \<le> inv_mtime (invalidators (world_of r) i)"
    by (simp_all add: mtime_kept_def)
qed

lemma invalidated_world_facts:
  "inv_mtime (invalidators mounted_world 0) = 0"
  "next_iid mounted_world = 1"
  "clock mounted_world = 1"
  "Invalidator_invalidate disposing_env 0 mounted_world = Some (Done invalidated_world)"
  "inv_mtime (invalidators invalidated_world 0) = 1"
  "next_iid invalidated_world = 1"
  "c_flags (components invalidated_world 0) = 10"
  "nextFrame invalidated_world = [0]"
  by (simp_all add: invalidated_world_def Invalidator_invalidate_def notify_set_def
        InvalidatorSubscription_invalidate_def set_inv_transientSubscriptions_def
        mounted_world_def disposing_env_def example_defs op_defs Component_syncVRoot_def)

lemma disposing_env_outside: "outside_keeps_mtime disposing_env"
  by (simp add: outside_keeps_mtime_def disposing_env_def rendering_env_def silent_env_def
        mtime_kept_refl Component_transientSubscribe_kept)
     (simp add: mtime_kept_def)

text \<open>In \<open>mounted_world\<close> invalidator 0 was created at clock 0 and the clock is 1;
  invalidating it moves its \<open>mtime\<close> from 0 to 1.\<close>

theorem mtime_never_decreases_witness:
  "outside_keeps_mtime disposing_env \<and>
   run disposing_env (Op_invalidate 0) mounted_world = Some (Done invalidated_world) \<and>
   next_iid mounted_world = 1 \<and> next_iid invalidated_world = 1 \<and>
   inv_mtime (invalidators mounted_world 0) = 0 \<and>
   inv_mtime (invalidators invalidated_world 0) = 1 \<and>
   inv_mtime (invalidators mounted_world 0) \<le> inv_mtime (invalidators invalidated_world 0)"
proof -
  have ran: "run disposing_env (Op_invalidate 0) mounted_world = Some (Done invalidated_world)"
    by (simp add: invalidated_world_facts)
  from mtime_never_decreases [of mounted_world disposing_env "Op_invalidate 0"]
    disposing_env_outside ran
  have "\<forall>i<next_iid mounted_world.
          inv_mtime (invalidators mounted_world i) \<le> inv_mtime (invalidators invalidated_world i)"
    by fastforce
  then have "inv_mtime (invalidators mounted_world 0) \<le>
      inv_mtime (invalidators invalidated_world 0)"
    by (simp add: invalidated_world_facts)
  with disposing_env_outside ran show ?thesis
    by (simp add: invalidated_world_facts)
qed

lemmas shared_defs = shared_descriptor_def shared_components_def shared_world_def
  unsubscribed_world_def

lemmas callback_defs = cancelling_env_def three_callbacks_world_def

section \<open>Removing a subscription\<close>

text \<open>
  C8, evaluated where it fails. Invalidator 0 of \<open>shared_world\<close> holds the array
  \<open>[0, 1]\<close> of durable subscriptions; subscription 1 belongs to component 1, was never
  canceled, and is the last entry. Its \<^verbatim>\<open>cancel()\<close> returns, marks it as canceled and
  takes it out of the component's own set, but the invalidator's array is \<open>[0, 1]\<close> as
  before: \<^verbatim>\<open>subscriptions[i] = subscriptions.pop()\<close> at the last index stores the popped
  element back. A second \<^verbatim>\<open>cancel()\<close> throws, as the claim says.
\<close>

theorem cancel_leaves_last_entry:
  "inv_subscriptions (invalidators shared_world 0) = Array 0 \<and>
   arrays shared_world 0 = [0, 1] \<and>
   sub_invalidator (subscriptions shared_world 1) = 0 \<and>
   sub_subscriber (subscriptions shared_world 1) = ComponentRef 1 \<and>
   sub_flags (subscriptions shared_world 1) = COMPONENT \<and>
   c_subscriptions (components shared_world 1) = Single 1 \<and>
   \<not> sub_isCanceled (subscriptions shared_world 1) \<and>
   InvalidatorSubscription_cancel rendering_env 1 shared_world = Done unsubscribed_world \<and>
   sub_isCanceled (subscriptions unsubscribed_world 1) \<and>
   c_subscriptions (components unsubscribed_world 1) = Null \<and>
   inv_subscriptions (invalidators unsubscribed_world 0) = Array 0 \<and>
   arrays unsubscribed_world 0 = [0, 1] \<and>
   InvalidatorSubscription_cancel rendering_env 1 unsubscribed_world =
     Raised (Thrown
       ''Failed to cancel InvalidatorSubscription: subscription cannot be canceled twice'')
       unsubscribed_world"
proof -
  have "is_Done (InvalidatorSubscription_cancel rendering_env 1 shared_world)"
    by (simp add: shared_defs example_defs op_defs)
  then have "InvalidatorSubscription_cancel rendering_env 1 shared_world = Done unsubscribed_world"
    unfolding unsubscribed_world_def by (rule Done_world_of)
  moreover have "sub_isCanceled (subscriptions unsubscribed_world 1)"
    by (simp add: shared_defs example_defs op_defs)
  then have "InvalidatorSubscription_cancel rendering_env 1 unsubscribed_world =
     Raised (Thrown
       ''Failed to cancel InvalidatorSubscription: subscription cannot be canceled twice'')
       unsubscribed_world"
    by (simp add: InvalidatorSubscription_cancel_def rendering_env_fields)
  ultimately show ?thesis
    by (simp add: shared_defs example_defs op_defs)
qed

section \<open>A wave over an array that changes\<close>

text \<open>
  C3, evaluated where it fails. Invalidator 0 of \<open>three_callbacks_world\<close> holds the
  durable subscriptions \<open>[0, 1, 2]\<close> of three callbacks; callback 1 cancels subscription
  0 when it is notified. In the wave the callbacks 0 and 1 run and callback 2 does not,
  although subscription 2 was in the array from the start and is not canceled: the removal
  moved it to index 0, which the loop had passed, and the array is \<open>[2, 1]\<close>. And in
  \<open>unsubscribed_world\<close>, where subscription 1 of component 1 was canceled before the
  wave, component 1 is notified all the same: it ends in the next-frame queue.
\<close>

theorem notifications_missed_and_kept:
  "arrays three_callbacks_world 0 = [0, 1, 2] \<and>
   eachFrame three_callbacks_world = [] \<and>
   Invalidator_invalidate cancelling_env 0 three_callbacks_world \<noteq> None \<and>
   is_Done (the (Invalidator_invalidate cancelling_env 0 three_callbacks_world)) \<and>
   eachFrame (world_of (the (Invalidator_invalidate cancelling_env 0 three_callbacks_world))) =
     [0, 1] \<and>
   arrays (world_of (the (Invalidator_invalidate cancelling_env 0 three_callbacks_world))) 0 =
     [2, 1] \<and>
   \<not> sub_isCanceled (subscriptions
        (world_of (the (Invalidator_invalidate cancelling_env 0 three_callbacks_world))) 2) \<and>
   sub_isCanceled (subscriptions unsubscribed_world 1) \<and>
   nextFrame unsubscribed_world = [] \<and>
   Invalidator_invalidate rendering_env 0 unsubscribed_world \<noteq> None \<and>
   is_Done (the (Invalidator_invalidate rendering_env 0 unsubscribed_world)) \<and>
   nextFrame (world_of (the (Invalidator_invalidate rendering_env 0 unsubscribed_world))) =
     [0, 1]"
  by (simp add: notify_each.simps shared_defs callback_defs three_components_def
        example_defs op_defs)

section \<open>A wave that reaches a transiently subscribed component\<close>

text \<open>
  C2, evaluated where it fails. Component 0 of \<open>rendered_world\<close> is neither dirty nor
  disposed and holds one transient subscription, to invalidator 0, whose \<open>mtime\<close> is
  behind the clock. \<^verbatim>\<open>invalidate()\<close> on that invalidator throws a \<^verbatim>\<open>TypeError\<close>: it sets
  its transient set to \<^verbatim>\<open>null\<close> before it notifies, and the component's
  \<^verbatim>\<open>cancelTransientSubscriptions()\<close> then asks the invalidator to remove the subscription
  from that set. The component is left dirty, still holding the subscription, and is not
  registered with the scheduler.
\<close>

theorem transient_wave_throws:
  "c_flags (components rendered_world 0) AND
     (DIRTY rendering_env OR DISPOSED rendering_env) = 0 \<and>
   c_transientSubscriptions (components rendered_world 0) = Single 0 \<and>
   inv_transientSubscriptions (invalidators rendered_world 0) = Single 0 \<and>
   inv_mtime (invalidators rendered_world 0) < clock rendered_world \<and>
   Invalidator_invalidate rendering_env 0 rendered_world \<noteq> None \<and>
   error_of (the (Invalidator_invalidate rendering_env 0 rendered_world)) = Some TypeError \<and>
   c_flags (components
      (world_of (the (Invalidator_invalidate rendering_env 0 rendered_world))) 0) = 10 \<and>
   c_transientSubscriptions (components
      (world_of (the (Invalidator_invalidate rendering_env 0 rendered_world))) 0) = Single 0 \<and>
   nextFrame (world_of (the (Invalidator_invalidate rendering_env 0 rendered_world))) = []"
  by (simp add: example_defs op_defs)

section \<open>One wave in a tick\<close>

lemma entries_Array [simp]: "entries w (Array a) = arrays w a"
  by (simp add: entries_def)





















section \<open>Disposing a component whose subscription is the last of an array\<close>

lemma disposed_shared_world_facts:
  "is_Done (Component_dispose rendering_env 1 shared_world)"
  "c_flags (components shared_world 1) = 2"
  "c_subscriptions (components shared_world 1) = Single 1"
  "c_transientSubscriptions (components shared_world 1) = Null"
  "sub_invalidator (subscriptions shared_world 1) = 0"
  "sub_subscriber (subscriptions shared_world 1) = ComponentRef 1"
  "inv_subscriptions (invalidators shared_world 0) = Array 0"
  "arrays shared_world 0 = [0, 1]"
  "c_flags (components disposed_shared_world 1) = 1"
  "c_subscriptions (components disposed_shared_world 1) = Null"
  "c_transientSubscriptions (components disposed_shared_world 1) = Null"
  "inv_subscriptions (invalidators disposed_shared_world 0) = Array 0"
  "arrays disposed_shared_world 0 = [0, 1]"
  "sub_subscriber (subscriptions disposed_shared_world 1) = ComponentRef 1"
  "sub_invalidator (subscriptions disposed_shared_world 1) = 0"
  "inv_subscriptions (invalidators
     (world_of (Component_dispose rendering_env 0 shared_world)) 0) = Array 0"
  "arrays (world_of (Component_dispose rendering_env 0 shared_world)) 0 = [1]"
  by (simp_all add: disposed_shared_world_def Component_dispose_def
        Component_cancelSubscriptions_def shared_defs example_defs op_defs)

text \<open>
  C6, evaluated where it fails. Invalidator 0 of \<open>shared_world\<close> holds the array
  \<open>[0, 1]\<close> of durable subscriptions; subscription 1 is the durable subscription of
  component 1, which was never disposed, has no transient subscription, no root, and a
  descriptor without a \<^verbatim>\<open>disposed\<close> hook. Its \<^verbatim>\<open>dispose()\<close> returns: the flags are
  \<open>DISPOSED\<close> alone and both sets of the component are \<^verbatim>\<open>null\<close>. But the durable
  subscription was not canceled: the invalidator's array is \<open>[0, 1]\<close> as before, with the
  subscription of the disposed component as its last entry, because
  \<^verbatim>\<open>subscriptions[i] = subscriptions.pop()\<close> at the last index stores the popped element
  back. (Disposing component 0 instead, whose subscription is the first entry, leaves
  \<open>[1]\<close>.) A second \<^verbatim>\<open>dispose()\<close> throws and leaves the store as it is, as the claim
  says.
\<close>

theorem dispose_leaves_subscription:
  "c_flags (components shared_world 1) AND DISPOSED rendering_env = 0 \<and>
   c_subscriptions (components shared_world 1) = Single 1 \<and>
   c_transientSubscriptions (components shared_world 1) = Null \<and>
   sub_invalidator (subscriptions shared_world 1) = 0 \<and>
   sub_subscriber (subscriptions shared_world 1) = ComponentRef 1 \<and>
   inv_subscriptions (invalidators shared_world 0) = Array 0 \<and>
   arrays shared_world 0 = [0, 1] \<and>
   Component_dispose rendering_env 1 shared_world = Done disposed_shared_world \<and>
   c_flags (components disposed_shared_world 1) = DISPOSED rendering_env \<and>
   c_subscriptions (components disposed_shared_world 1) = Null \<and>
   c_transientSubscriptions (components disposed_shared_world 1) = Null \<and>
   inv_subscriptions (invalidators disposed_shared_world 0) = Array 0 \<and>
   arrays disposed_shared_world 0 = [0, 1] \<and>
   sub_invalidator (subscriptions disposed_shared_world 1) = 0 \<and>
   sub_subscriber (subscriptions disposed_shared_world 1) = ComponentRef 1 \<and>
   Invalidator_hasSubscriptions 0 disposed_shared_world \<and>
   arrays (world_of (Component_dispose rendering_env 0 shared_world)) 0 = [1] \<and>
   Component_dispose rendering_env 1 disposed_shared_world =
     Raised (Thrown ''Failed to dispose Component: component is already disposed'')
       disposed_shared_world"
proof -
  have "Component_dispose rendering_env 1 shared_world = Done disposed_shared_world"
    unfolding disposed_shared_world_def
    by (rule Done_world_of) (rule disposed_shared_world_facts)
  moreover have "DEBUG rendering_env \<and>
      c_flags (components disposed_shared_world 1) AND DISPOSED rendering_env \<noteq> 0"
    using disposed_shared_world_facts(9) by (simp add: rendering_env_fields)
  then have "Component_dispose rendering_env 1 disposed_shared_world =
     Raised (Thrown ''Failed to dispose Component: component is already disposed'')
       disposed_shared_world"
    by (simp add: Component_dispose_def)
  ultimately show ?thesis
    using disposed_shared_world_facts
    by (simp add: rendering_env_fields Invalidator_hasSubscriptions_def has_entries_def)
qed

end
